theory Spec2Isabelle
  imports Main "HOL-Library.Char_ord" "HOL-Library.List_Lexorder"
begin

section \<open>Word-to-PDF conversion service: a model of server.js\<close>

text \<open>
  The service is event driven: every handler of the source runs to completion on one
  event (a settled promise, a timer, a child-process event, a request), and the runtime
  decides the order and the time of the events. A handler is modelled as a function from
  the event and the state to the new state and the list of actions it performs; a run
  is a list of events. Times are the milliseconds of \<^verbatim>\<open>Date.now()\<close>.

  An \<^verbatim>\<open>Error\<close> object of the source is represented by the place that builds it
  together with the values interpolated into its message. Of the console output, the
  lines a property speaks about are actions, with their fixed text; the other
  informational lines are left out. Strings stand for the string values of the request
  body, the empty string for a missing (falsy) field.
\<close>

subsection \<open>Strings, paths, buffers\<close>

type_synonym path = string
type_synonym buffer = string

definition startsWith :: "string \<Rightarrow> string \<Rightarrow> bool" where
  "startsWith s p = (take (length p) s = p)"

definition endsWith :: "string \<Rightarrow> string \<Rightarrow> bool" where
  "endsWith s x = (length x \<le> length s \<and> drop (length s - length x) s = x)"

text \<open>
  \<^verbatim>\<open>path.join(dir, name)\<close> on POSIX: the non-empty arguments are put together with a
  slash between them and the result is normalized. Normalization works on the segments
  between slashes: an empty segment and \<^verbatim>\<open>.\<close> are dropped, \<^verbatim>\<open>..\<close> removes the segment
  before it (and is kept at the start of a relative path, dropped at the root), a
  trailing slash is kept.
\<close>

fun segments :: "string \<Rightarrow> string list" where
  "segments [] = [[]]"
| "segments (c # cs) =
     (if c = CHR ''/'' then [] # segments cs
      else (case segments cs of [] \<Rightarrow> [[c]] | seg # segs \<Rightarrow> (c # seg) # segs))"

fun normalizeString :: "bool \<Rightarrow> string list \<Rightarrow> string list \<Rightarrow> string list" where
  "normalizeString allowAboveRoot res [] = rev res"
| "normalizeString allowAboveRoot res (seg # segs) =
     (if seg = [] \<or> seg = ''.'' then normalizeString allowAboveRoot res segs
      else if seg = ''..'' then
        (case res of
           [] \<Rightarrow> normalizeString allowAboveRoot (if allowAboveRoot then [''..''] else []) segs
         | prev # up \<Rightarrow>
             if prev = ''..''
             then normalizeString allowAboveRoot (if allowAboveRoot then ''..'' # res else res) segs
             else normalizeString allowAboveRoot up segs)
      else normalizeString allowAboveRoot (seg # res) segs)"

fun separated :: "string list \<Rightarrow> string" where
  "separated [] = []"
| "separated [seg] = seg"
| "separated (seg # segs) = seg @ ''/'' @ separated segs"

definition normalize_path :: "path \<Rightarrow> path" where
  "normalize_path p =
     (if p = [] then ''.''
      else
        (let isAbsolute = (hd p = CHR ''/'');
             trailingSeparator = (last p = CHR ''/'');
             res = separated (normalizeString (\<not> isAbsolute) [] (segments p))
         in if res = [] then (if isAbsolute then ''/'' else if trailingSeparator then ''./'' else ''.'')
            else (if isAbsolute then ''/'' else []) @ res @ (if trailingSeparator then ''/'' else [])))"

definition join :: "path \<Rightarrow> string \<Rightarrow> path" where
  "join dir name =
     (if dir = [] \<and> name = [] then ''.''
      else if dir = [] then normalize_path name
      else if name = [] then normalize_path dir
      else normalize_path (dir @ ''/'' @ name))"

text \<open>\<^verbatim>\<open>x || 'none'\<close> on a string: the empty string is falsy.\<close>

definition or_none :: "string \<Rightarrow> string" where
  "or_none x = (if x = [] then ''none'' else x)"

subsection \<open>Errors\<close>

datatype error =
    ConversionTimeout int int string string
      \<comment> \<open>timeoutMs, duration, stdout or none, stderr or none (server.js line 119)\<close>
  | ConversionFailed "int option" int string string
      \<comment> \<open>code, duration, stderr or none, stdout or none (line 127)\<close>
  | PdfNotGenerated path "string list"
      \<comment> \<open>output directory and its listing (line 136)\<close>
  | PdfNotGeneratedLegacy "string list"
      \<comment> \<open>the listing of the output directory (the earlier server file, line 58)\<close>
  | InvalidDocxUrl
      \<comment> \<open>Invalid DOCX URL: Only absolute URLs are supported (line 172)\<close>
  | DownloadFailed int
      \<comment> \<open>Failed to download DOCX, with the response status (lines 184, 359)\<close>
  | SystemError string
      \<comment> \<open>an error raised by the runtime: fs, fetch, spawn\<close>

subsection \<open>The child process object\<close>

datatype signal = SIGTERM | SIGKILL | SIGOTHER string

record child_process =
  killed :: bool
  exitCode :: "int option"
  signalCode :: "signal option"

definition new_child :: child_process where
  "new_child = \<lparr>killed = False, exitCode = None, signalCode = None\<rparr>"

text \<open>
  How the process ended, as Node records it on the child object: an exit code, or the
  signal that terminated it (then \<^verbatim>\<open>exitCode\<close> stays \<^verbatim>\<open>null\<close>).
\<close>

datatype exit_status = ExitCode int | ExitSignal signal

definition has_exited :: "child_process \<Rightarrow> bool" where
  "has_exited c = (exitCode c \<noteq> None \<or> signalCode c \<noteq> None)"

definition on_exit :: "exit_status \<Rightarrow> child_process \<Rightarrow> child_process" where
  "on_exit st c =
     (case st of
        ExitCode n \<Rightarrow> c\<lparr>exitCode := Some n\<rparr>
      | ExitSignal sg \<Rightarrow> c\<lparr>signalCode := Some sg\<rparr>)"

text \<open>
  \<^verbatim>\<open>child.kill(sig)\<close>: the signal goes to a process that has not ended, and
  \<^verbatim>\<open>killed\<close> records that one was sent; on an ended process the call does nothing.
\<close>

definition kill :: "child_process \<Rightarrow> child_process" where
  "kill c = (if has_exited c then c else c\<lparr>killed := True\<rparr>)"

subsection \<open>The process supervisor: convertDocxToPdf\<close>

text \<open>
  What the program does to the outside: the calls of \<^verbatim>\<open>fs\<close>, \<^verbatim>\<open>fetch\<close>,
  \<^verbatim>\<open>child_process\<close> and \<^verbatim>\<open>console\<close>. The base64 text of a buffer is
  written \<open>Base64 b\<close>.
\<close>

datatype base64 = Base64 buffer

datatype payload =
    CompletedPayload string string base64
      \<comment> \<open>orderId, jobId, pdfBuffer; status completed\<close>
  | FailedPayload string string error
      \<comment> \<open>orderId, jobId, the message of the error; status failed\<close>

datatype action =
    Clock
      \<comment> \<open>reading \<^verbatim>\<open>Date.now()\<close> and \<^verbatim>\<open>Math.random()\<close>\<close>
  | Fetch string
  | ResponseBuffer
  | ResponseText
  | PostWebhook string payload
  | FsWriteFile path buffer
  | FsMkdir path
  | FsReadFile path
  | FsUnlink path
  | FsRm path
  | FsReaddir path
  | FsStat path
  | Spawn string "string list"
      \<comment> \<open>\<^verbatim>\<open>child_process.spawn(file, args)\<close>: an argument vector, no shell\<close>
  | ExecShell string
      \<comment> \<open>\<^verbatim>\<open>child_process.exec(command)\<close>: the string is run by a shell\<close>
  | Kill signal
  | ConsoleLog string
  | ConsoleWarn string
  | ConsoleError string

datatype sup_event =
    WriteFileDone "error option" int
      \<comment> \<open>\<^verbatim>\<open>fs.writeFile\<close> settled, at the given time\<close>
  | StdoutData string
  | StderrData string
  | DeadlineTimer int
      \<comment> \<open>the runtime offers to run the \<^verbatim>\<open>timeoutMs\<close> timer at this time\<close>
  | GraceTimer int
      \<comment> \<open>the same for the 5000 ms timer\<close>
  | ChildExit exit_status
      \<comment> \<open>the process ended; Node updates the child object\<close>
  | ChildClose int
      \<comment> \<open>the close event, at the given time\<close>
  | ChildError error
      \<comment> \<open>the error event\<close>
  | UnlinkDone bool
      \<comment> \<open>the unawaited \<^verbatim>\<open>fs.unlink(inputFile)\<close> settled; True is success\<close>
  | ReaddirDone "error + string list"
  | StatDone "error + nat"

datatype sup_phase = Writing | Running | Listing | Statting path | Finished

record sup =
  startTime :: int
  inputFile :: path
  outputDir :: path
  timeoutMs :: int
  phase :: sup_phase
  child :: child_process
  stdout :: string
  stderr :: string
  timeoutId :: "int option"
    \<comment> \<open>the time the pending deadline timer is due; None when not set, fired or cleared\<close>
  graceTimer :: "int option"
  processKilled :: bool
  settled :: "(error + path) option"
    \<comment> \<open>the promise the function returns: pending, or rejected (Inl) or resolved (Inr)\<close>

text \<open>A promise settles once: later calls of resolve and reject do nothing.\<close>

definition reject :: "error \<Rightarrow> sup \<Rightarrow> sup" where
  "reject e s = (if settled s = None then s\<lparr>settled := Some (Inl e)\<rparr> else s)"

definition resolve :: "path \<Rightarrow> sup \<Rightarrow> sup" where
  "resolve p s = (if settled s = None then s\<lparr>settled := Some (Inr p)\<rparr> else s)"

text \<open>
  The call itself (lines 52 to 57): the start time, the input file name (the decimal time
  stamp and the random suffix arrive as the string \<open>stamp\<close>), and the write of the
  input file.
\<close>

definition convertDocxToPdf ::
  "path \<Rightarrow> int \<Rightarrow> string \<Rightarrow> buffer \<Rightarrow> path \<Rightarrow> int \<Rightarrow> sup \<times> action list" where
  "convertDocxToPdf tmpdir now stamp docxBuffer outDir timeout =
     (let inFile = join tmpdir (''input_'' @ stamp @ ''.docx'') in
      (\<lparr>startTime = now, inputFile = inFile, outputDir = outDir, timeoutMs = timeout,
        phase = Writing, child = new_child, stdout = [], stderr = [],
        timeoutId = None, graceTimer = None, processKilled = False, settled = None\<rparr>,
       [FsWriteFile inFile docxBuffer]))"

definition libreoffice_args :: "path \<Rightarrow> path \<Rightarrow> string list" where
  "libreoffice_args outDir inFile =
     [''--headless'', ''--convert-to'', ''pdf'', ''--outdir'', outDir, inFile]"

text \<open>The handler of the deadline timer (lines 90 to 104).\<close>

definition on_deadline :: "int \<Rightarrow> sup \<Rightarrow> sup \<times> action list" where
  "on_deadline now s =
     (if \<not> killed (child s) \<and> exitCode (child s) = None then
        (s\<lparr>processKilled := True, child := kill (child s), graceTimer := Some (now + 5000)\<rparr>,
         [ConsoleError ''Conversion timeout, killing process...'', Kill SIGTERM])
      else (s, []))"

text \<open>The handler of the grace timer (lines 97 to 102).\<close>

definition on_grace :: "sup \<Rightarrow> sup \<times> action list" where
  "on_grace s =
     (if exitCode (child s) = None then
        (s\<lparr>child := kill (child s)\<rparr>,
         [ConsoleError ''Force killing LibreOffice process...'', Kill SIGKILL])
      else (s, []))"

text \<open>The handler of close (lines 107 to 149), up to the directory listing.\<close>

definition on_close :: "int \<Rightarrow> sup \<Rightarrow> sup \<times> action list" where
  "on_close now s =
     (let duration = now - startTime s;
          code = exitCode (child s);
          s1 = s\<lparr>timeoutId := None\<rparr>
      in
      if processKilled s1 then
        (reject (ConversionTimeout (timeoutMs s1) duration (or_none (stdout s1)) (or_none (stderr s1)))
           (s1\<lparr>phase := Finished\<rparr>),
         [FsUnlink (inputFile s1)])
      else if code \<noteq> Some 0 then
        (reject (ConversionFailed code duration (or_none (stderr s1)) (or_none (stdout s1)))
           (s1\<lparr>phase := Finished\<rparr>),
         [FsUnlink (inputFile s1), ConsoleError ''LibreOffice failed''])
      else
        (s1\<lparr>phase := Listing\<rparr>, [FsUnlink (inputFile s1), FsReaddir (outputDir s1)]))"

text \<open>\<^verbatim>\<open>files.filter(f => f.endsWith('.pdf'))\<close> (line 134).\<close>

definition pdf_names :: "string list \<Rightarrow> string list" where
  "pdf_names files = filter (\<lambda>f. endsWith f ''.pdf'') files"

text \<open>The continuation of \<^verbatim>\<open>fs.readdir\<close> (lines 133 to 148).\<close>

definition on_readdir :: "error + string list \<Rightarrow> sup \<Rightarrow> sup \<times> action list" where
  "on_readdir r s =
     (case r of
        Inl e \<Rightarrow> (reject e (s\<lparr>phase := Finished\<rparr>), [])
      | Inr files \<Rightarrow>
          (let pdfFiles = pdf_names files in
           case pdfFiles of
             [] \<Rightarrow> (reject (PdfNotGenerated (outputDir s) files) (s\<lparr>phase := Finished\<rparr>), [])
           | first # _ \<Rightarrow>
               (let pdfFile = join (outputDir s) first in
                (s\<lparr>phase := Statting pdfFile\<rparr>, [FsStat pdfFile]))))"

definition on_stat :: "path \<Rightarrow> error + nat \<Rightarrow> sup \<Rightarrow> sup \<times> action list" where
  "on_stat pdfFile r s =
     (case r of
        Inl e \<Rightarrow> (reject e (s\<lparr>phase := Finished\<rparr>), [])
      | Inr sz \<Rightarrow> (resolve pdfFile (s\<lparr>phase := Finished\<rparr>), []))"

text \<open>The handler of the error event (lines 152 to 162).\<close>

definition on_error :: "error \<Rightarrow> sup \<Rightarrow> sup \<times> action list" where
  "on_error e s =
     (reject e (s\<lparr>timeoutId := None\<rparr>),
      [ConsoleError ''LibreOffice spawn error'', FsUnlink (inputFile s)])"

text \<open>
  \<^verbatim>\<open>setTimeout(callback, delay)\<close>: Node replaces a delay below 1 or above 2147483647
  by 1.
\<close>

definition timer_delay :: "int \<Rightarrow> int" where
  "timer_delay ms = (if ms < 1 \<or> 2147483647 < ms then 1 else ms)"

text \<open>
  One event of the supervisor. An event no handler is registered for, or a timer that
  is not pending or not yet due, changes nothing.
\<close>

fun sup_step :: "sup_event \<Rightarrow> sup \<Rightarrow> sup \<times> action list" where
  "sup_step (WriteFileDone r now) s =
     (if phase s = Writing then
        (case r of
           Some e \<Rightarrow> (reject e (s\<lparr>phase := Finished\<rparr>), [])
         | None \<Rightarrow>
             (s\<lparr>phase := Running, timeoutId := Some (now + timer_delay (timeoutMs s))\<rparr>,
              [Spawn ''libreoffice'' (libreoffice_args (outputDir s) (inputFile s))]))
      else (s, []))"
| "sup_step (StdoutData d) s =
     (if phase s = Running then (s\<lparr>stdout := stdout s @ d\<rparr>, []) else (s, []))"
| "sup_step (StderrData d) s =
     (if phase s = Running then (s\<lparr>stderr := stderr s @ d\<rparr>, []) else (s, []))"
| "sup_step (DeadlineTimer now) s =
     (case timeoutId s of
        None \<Rightarrow> (s, [])
      | Some due \<Rightarrow> if due \<le> now then on_deadline now (s\<lparr>timeoutId := None\<rparr>) else (s, []))"
| "sup_step (GraceTimer now) s =
     (case graceTimer s of
        None \<Rightarrow> (s, [])
      | Some due \<Rightarrow> if due \<le> now then on_grace (s\<lparr>graceTimer := None\<rparr>) else (s, []))"
| "sup_step (ChildExit st) s =
     (if phase s = Running \<and> \<not> has_exited (child s)
      then (s\<lparr>child := on_exit st (child s)\<rparr>, []) else (s, []))"
| "sup_step (ChildClose now) s =
     (if phase s = Running then on_close now s else (s, []))"
| "sup_step (ChildError e) s =
     (if phase s = Running then on_error e s else (s, []))"
| "sup_step (UnlinkDone ok) s =
     (if ok then (s, []) else (s, [ConsoleWarn ''Failed to cleanup input file'']))"
| "sup_step (ReaddirDone r) s =
     (if phase s = Listing then on_readdir r s else (s, []))"
| "sup_step (StatDone r) s =
     (case phase s of Statting pdfFile \<Rightarrow> on_stat pdfFile r s | _ \<Rightarrow> (s, []))"

text \<open>A run: the events in order, the actions collected.\<close>

fun sup_run :: "sup_event list \<Rightarrow> sup \<times> action list \<Rightarrow> sup \<times> action list" where
  "sup_run [] sa = sa"
| "sup_run (e # es) (s, acts) = (case sup_step e s of (s', new) \<Rightarrow> sup_run es (s', acts @ new))"

subsection \<open>Asynchronous functions as programs\<close>

text \<open>
  An \<^verbatim>\<open>async\<close> function is a program that the runtime resumes: it has returned
  (\<open>Done\<close>), has thrown (\<open>Throw\<close>), performs an action it does not wait for (\<open>Emit\<close>),
  awaits a call and goes on with its reply (\<open>Await\<close>), or awaits the promise of a running
  \<open>convertDocxToPdf\<close> (\<open>Supervise\<close>). A reply is the error the call was rejected with or
  the value it resolved to. \<open>bind_prog\<close> is sequencing (and \<^verbatim>\<open>.then\<close>), \<open>try_catch\<close> is
  \<^verbatim>\<open>try { } catch (e) { }\<close> (and \<^verbatim>\<open>.catch\<close>). Reading the clock and the random
  generator is an awaited call too, so that the time and the fresh part of a file name
  come from the run.
\<close>

record http_response =
  ok :: bool
  status :: int

datatype val =
    VUnit
  | VClock int string
  | VResponse http_response
  | VBuffer buffer
  | VText string
  | VFiles "string list"
  | VExec string string

type_synonym reply = "error + val"

datatype 'r prog =
    Done 'r
  | Throw error
  | Emit action "'r prog"
  | Await action "reply \<Rightarrow> 'r prog"
  | Supervise sup "error + path \<Rightarrow> 'r prog"

primrec bind_prog :: "'a prog \<Rightarrow> ('a \<Rightarrow> 'b prog) \<Rightarrow> 'b prog" where
  "bind_prog (Done v) f = f v"
| "bind_prog (Throw e) f = Throw e"
| "bind_prog (Emit a p) f = Emit a (bind_prog p f)"
| "bind_prog (Await a k) f = Await a (\<lambda>r. bind_prog (k r) f)"
| "bind_prog (Supervise s k) f = Supervise s (\<lambda>r. bind_prog (k r) f)"

primrec try_catch :: "'a prog \<Rightarrow> (error \<Rightarrow> 'a prog) \<Rightarrow> 'a prog" where
  "try_catch (Done v) h = Done v"
| "try_catch (Throw e) h = h e"
| "try_catch (Emit a p) h = Emit a (try_catch p h)"
| "try_catch (Await a k) h = Await a (\<lambda>r. try_catch (k r) h)"
| "try_catch (Supervise s k) h = Supervise s (\<lambda>r. try_catch (k r) h)"

primrec emit_all :: "action list \<Rightarrow> 'r prog \<Rightarrow> 'r prog" where
  "emit_all [] p = p"
| "emit_all (a # as) p = Emit a (emit_all as p)"

text \<open>The calls with the type of value each resolves to; a reply of another type is an error.\<close>

definition type_error :: "'r prog" where
  "type_error = Throw (SystemError ''TypeError'')"

definition clock :: "(int \<times> string) prog" where
  "clock = Await Clock (\<lambda>r. case r of Inr (VClock now stamp) \<Rightarrow> Done (now, stamp)
                              | Inl e \<Rightarrow> Throw e | Inr _ \<Rightarrow> type_error)"

definition fetch :: "string \<Rightarrow> http_response prog" where
  "fetch url = Await (Fetch url) (\<lambda>r. case r of Inr (VResponse resp) \<Rightarrow> Done resp
                              | Inl e \<Rightarrow> Throw e | Inr _ \<Rightarrow> type_error)"

definition response_buffer :: "buffer prog" where
  "response_buffer = Await ResponseBuffer (\<lambda>r. case r of Inr (VBuffer b) \<Rightarrow> Done b
                              | Inl e \<Rightarrow> Throw e | Inr _ \<Rightarrow> type_error)"

definition response_text :: "string prog" where
  "response_text = Await ResponseText (\<lambda>r. case r of Inr (VText t) \<Rightarrow> Done t
                              | Inl e \<Rightarrow> Throw e | Inr _ \<Rightarrow> type_error)"

definition post_webhook :: "string \<Rightarrow> payload \<Rightarrow> http_response prog" where
  "post_webhook url body = Await (PostWebhook url body) (\<lambda>r. case r of Inr (VResponse resp) \<Rightarrow> Done resp
                              | Inl e \<Rightarrow> Throw e | Inr _ \<Rightarrow> type_error)"

definition readFile :: "path \<Rightarrow> buffer prog" where
  "readFile p = Await (FsReadFile p) (\<lambda>r. case r of Inr (VBuffer b) \<Rightarrow> Done b
                              | Inl e \<Rightarrow> Throw e | Inr _ \<Rightarrow> type_error)"

definition readdir :: "path \<Rightarrow> string list prog" where
  "readdir p = Await (FsReaddir p) (\<lambda>r. case r of Inr (VFiles fs) \<Rightarrow> Done fs
                              | Inl e \<Rightarrow> Throw e | Inr _ \<Rightarrow> type_error)"

definition execAsync :: "string \<Rightarrow> (string \<times> string) prog" where
  "execAsync command = Await (ExecShell command) (\<lambda>r. case r of Inr (VExec out err) \<Rightarrow> Done (out, err)
                              | Inl e \<Rightarrow> Throw e | Inr _ \<Rightarrow> type_error)"

text \<open>An awaited call whose value is not used: it throws when the call fails.\<close>

definition await_unit :: "action \<Rightarrow> unit prog" where
  "await_unit a = Await a (\<lambda>r. case r of Inl e \<Rightarrow> Throw e | Inr v \<Rightarrow> Done ())"

text \<open>\<^verbatim>\<open>await call.catch(() => {})\<close>: a failure of the call is dropped.\<close>

definition await_quiet :: "action \<Rightarrow> unit prog" where
  "await_quiet a = Await a (\<lambda>r. Done ())"

text \<open>
  \<^verbatim>\<open>await convertDocxToPdf(buffer, outputDir, 60000)\<close>: the call starts the supervisor
  of the previous section, and the caller resumes when its promise settles.
\<close>

definition convert :: "path \<Rightarrow> buffer \<Rightarrow> path \<Rightarrow> int \<Rightarrow> path prog" where
  "convert tmpdir docxBuffer outDir timeout =
     bind_prog clock (\<lambda>(now, stamp).
       case convertDocxToPdf tmpdir now stamp docxBuffer outDir timeout of
         (s, acts) \<Rightarrow>
           emit_all acts (Supervise s (\<lambda>r. case r of Inl e \<Rightarrow> Throw e | Inr p \<Rightarrow> Done p)))"

subsection \<open>convertDocxToPdfFromUrl (the asynchronous path)\<close>

text \<open>The check of line 171, and the function (lines 169 to 219).\<close>

definition unusable_url :: "string \<Rightarrow> bool" where
  "unusable_url docxUrl =
     (docxUrl = ''test'' \<or> docxUrl = ''health-check'' \<or> \<not> startsWith docxUrl ''http'')"

definition convertDocxToPdfFromUrl :: "path \<Rightarrow> string \<Rightarrow> string \<Rightarrow> buffer prog" where
  "convertDocxToPdfFromUrl tmpdir docxUrl orderId =
     (if unusable_url docxUrl then Throw InvalidDocxUrl
      else
        bind_prog clock (\<lambda>(now, timestamp).
        let outDir = join tmpdir (''output_'' @ orderId @ ''_'' @ timestamp) in
        try_catch
          (bind_prog (fetch docxUrl) (\<lambda>response.
           if \<not> ok response then Throw (DownloadFailed (status response))
           else
             bind_prog response_buffer (\<lambda>buffer.
             bind_prog (await_unit (FsMkdir outDir)) (\<lambda>u.
             bind_prog (convert tmpdir buffer outDir 60000) (\<lambda>pdfPath.
             bind_prog (readFile pdfPath) (\<lambda>pdfBuffer.
             bind_prog
               (try_catch
                  (bind_prog (await_unit (FsUnlink pdfPath)) (\<lambda>u.
                   bind_prog (await_unit (FsRm outDir)) (\<lambda>u.
                   Emit (ConsoleLog ''Cleaned up temporary files'') (Done ()))))
                  (\<lambda>cleanupError. Emit (ConsoleWarn ''Cleanup warning'') (Done ())))
               (\<lambda>u. Done pdfBuffer)))))))
          (\<lambda>error.
             bind_prog
               (try_catch (await_quiet (FsRm outDir))
                  (\<lambda>cleanupError. Emit (ConsoleWarn ''Cleanup error'') (Done ())))
               (\<lambda>u. Throw error))))"

subsection \<open>POST /api/convert: the promise chain with the webhook\<close>

text \<open>
  The handlers of \<^verbatim>\<open>.then\<close> (lines 261 to 293) and \<^verbatim>\<open>.catch\<close> (lines 294 to 318),
  and the chain itself. The secret header of the request is left out.
\<close>

definition notify_completed :: "string \<Rightarrow> string \<Rightarrow> string \<Rightarrow> buffer \<Rightarrow> unit prog" where
  "notify_completed callbackUrl orderId jobId pdfBuffer =
     try_catch
       (bind_prog (post_webhook callbackUrl (CompletedPayload orderId jobId (Base64 pdfBuffer)))
          (\<lambda>webhookResponse.
             if ok webhookResponse then Emit (ConsoleLog ''Webhook sent successfully'') (Done ())
             else bind_prog response_text (\<lambda>errorText. Emit (ConsoleError ''Webhook failed'') (Done ()))))
       (\<lambda>webhookError. Emit (ConsoleError ''Error sending webhook'') (Done ()))"

definition notify_failed :: "string \<Rightarrow> string \<Rightarrow> string \<Rightarrow> error \<Rightarrow> unit prog" where
  "notify_failed callbackUrl orderId jobId error =
     Emit (ConsoleError ''Conversion failed'')
       (try_catch
          (bind_prog (post_webhook callbackUrl (FailedPayload orderId jobId error))
             (\<lambda>webhookResponse. Emit (ConsoleLog ''Failure webhook sent'') (Done ())))
          (\<lambda>webhookError. Emit (ConsoleError ''Failed to send failure webhook'') (Done ())))"

definition convert_job :: "path \<Rightarrow> string \<Rightarrow> string \<Rightarrow> string \<Rightarrow> string \<Rightarrow> unit prog" where
  "convert_job tmpdir docxUrl orderId callbackUrl jobId =
     try_catch
       (bind_prog (convertDocxToPdfFromUrl tmpdir docxUrl orderId)
          (notify_completed callbackUrl orderId jobId))
       (notify_failed callbackUrl orderId jobId)"

subsection \<open>POST /api/convert-sync: the callback given to the queue\<close>

text \<open>The function passed to \<^verbatim>\<open>conversionQueue.enqueue\<close> (lines 353 to 394).\<close>

datatype sync_result = SyncResult base64 nat

definition sync_callback :: "path \<Rightarrow> string \<Rightarrow> sync_result prog" where
  "sync_callback tmpdir docxUrl =
     try_catch
       (bind_prog (fetch docxUrl) (\<lambda>docxResponse.
        if \<not> ok docxResponse then Throw (DownloadFailed (status docxResponse))
        else
          bind_prog response_buffer (\<lambda>docxBuffer.
          bind_prog clock (\<lambda>(now, stamp).
          let outDir = join tmpdir (''output_sync_'' @ stamp) in
          bind_prog (await_unit (FsMkdir outDir)) (\<lambda>u.
          bind_prog (convert tmpdir docxBuffer outDir 60000) (\<lambda>pdfPath.
          bind_prog (readFile pdfPath) (\<lambda>pdfBuffer.
          bind_prog
            (try_catch
               (bind_prog (await_unit (FsUnlink pdfPath)) (\<lambda>u.
                bind_prog (await_unit (FsRm outDir)) (\<lambda>u.
                Emit (ConsoleLog ''Cleaned up temporary files'') (Done ()))))
               (\<lambda>e. Emit (ConsoleWarn ''Failed to cleanup'') (Done ())))
            (\<lambda>u. Done (SyncResult (Base64 pdfBuffer) (length pdfBuffer))))))))))
       (\<lambda>error. Emit (ConsoleError ''Error in synchronous conversion'') (Throw error))"

subsection \<open>The earlier server file: convertDocxToPdf through a shell command\<close>

text \<open>
  The second server file of the repository has one function for download and conversion
  (its lines 15 to 85), called by both of its endpoints. It writes the input file itself
  and runs the converter with \<^verbatim>\<open>exec\<close> on a command line built from the paths.
\<close>

definition quoted :: "string \<Rightarrow> string" where
  "quoted x = CHR 0x22 # x @ [CHR 0x22]"

primrec includes_str :: "string \<Rightarrow> string \<Rightarrow> bool" where
  "includes_str [] x = (x = [])"
| "includes_str (c # cs) x = (startsWith (c # cs) x \<or> includes_str cs x)"

definition legacy_command :: "path \<Rightarrow> path \<Rightarrow> string" where
  "legacy_command outDir inFile =
     ''libreoffice --headless --convert-to pdf --outdir '' @ quoted outDir @ '' '' @ quoted inFile"

definition convertDocxToPdf_legacy :: "path \<Rightarrow> string \<Rightarrow> string \<Rightarrow> buffer prog" where
  "convertDocxToPdf_legacy tmpdir docxUrl orderId =
     (if unusable_url docxUrl then Throw InvalidDocxUrl
      else
        bind_prog clock (\<lambda>(now, timestamp).
        let inFile = join tmpdir (''input_'' @ orderId @ ''_'' @ timestamp @ ''.docx'');
            outDir = join tmpdir (''output_'' @ orderId @ ''_'' @ timestamp) in
        try_catch
          (bind_prog (fetch docxUrl) (\<lambda>response.
           if \<not> ok response then Throw (DownloadFailed (status response))
           else
             bind_prog response_buffer (\<lambda>buffer.
             bind_prog (await_unit (FsWriteFile inFile buffer)) (\<lambda>u.
             bind_prog (await_unit (FsMkdir outDir)) (\<lambda>u.
             bind_prog (execAsync (legacy_command outDir inFile)) (\<lambda>(out, err).
             bind_prog
               (if err \<noteq> [] \<and> \<not> includes_str err ''INFO''
                then Emit (ConsoleWarn ''LibreOffice stderr'') (Done ()) else Done ())
               (\<lambda>u.
             bind_prog (readdir outDir) (\<lambda>files.
             case find (\<lambda>f. endsWith f ''.pdf'') files of
               None \<Rightarrow> Throw (PdfNotGeneratedLegacy files)
             | Some pdfFile \<Rightarrow>
                 (let pdfPath = join outDir pdfFile in
                  bind_prog (readFile pdfPath) (\<lambda>pdfBuffer.
                  bind_prog
                    (try_catch
                       (bind_prog (await_unit (FsUnlink inFile)) (\<lambda>u.
                        bind_prog (await_unit (FsRm outDir)) (\<lambda>u.
                        Emit (ConsoleLog ''Cleaned up temporary files'') (Done ()))))
                       (\<lambda>cleanupError. Emit (ConsoleWarn ''Cleanup warning'') (Done ())))
                    (\<lambda>u. Done pdfBuffer)))))))))))
          (\<lambda>error.
             bind_prog
               (try_catch
                  (bind_prog (await_quiet (FsUnlink inFile)) (\<lambda>u. await_quiet (FsRm outDir)))
                  (\<lambda>cleanupError. Emit (ConsoleWarn ''Cleanup error'') (Done ())))
               (\<lambda>u. Throw error))))"

subsection \<open>Running a program\<close>

datatype job_event = Reply reply | SupEvent sup_event

text \<open>
  What a program does until it next waits: the actions it emits and the call it awaits
  (the call is made when the program reaches it).
\<close>

primrec flush :: "'r prog \<Rightarrow> action list \<times> 'r prog" where
  "flush (Done v) = ([], Done v)"
| "flush (Throw e) = ([], Throw e)"
| "flush (Emit a p) = (a # fst (flush p), snd (flush p))"
| "flush (Await a k) = ([a], Await a k)"
| "flush (Supervise s k) = ([], Supervise s k)"

text \<open>
  One event of a job. A reply resumes the program that awaits it, which then runs up to
  its next \<^verbatim>\<open>await\<close> (or its end); an event of the supervisor goes to its handler,
  and when that settles the promise the caller resumes in the same step. What the
  handlers of a supervisor still do after its promise has settled (a second unlink when
  close follows error, the grace timer on a process that is gone) is not followed.
\<close>

fun job_step :: "job_event \<Rightarrow> 'r prog \<Rightarrow> action list \<times> 'r prog" where
  "job_step (Reply r) (Await a k) = flush (k r)"
| "job_step (SupEvent e) (Supervise s k) =
     (case sup_step e s of
        (s', acts) \<Rightarrow>
          (case settled s' of
             None \<Rightarrow> (acts, Supervise s' k)
           | Some r \<Rightarrow> (acts @ fst (flush (k r)), snd (flush (k r)))))"
| "job_step ev p = ([], p)"

fun job_run :: "job_event list \<Rightarrow> action list \<times> 'r prog \<Rightarrow> action list \<times> 'r prog" where
  "job_run [] ap = ap"
| "job_run (e # es) (acts, p) = (case job_step e p of (new, p') \<Rightarrow> job_run es (acts @ new, p'))"

text \<open>A response with status 200.\<close>

definition ok200 :: http_response where
  "ok200 = \<lparr>ok = True, status = 200\<rparr>"


subsection \<open>ConversionQueue\<close>

text \<open>
  An entry of the queue is \<^verbatim>\<open>{ docxUrl, callback, resolve, reject }\<close>; the type
  \<open>'e\<close> stands for it. \<open>Call e\<close> is \<^verbatim>\<open>request.callback()\<close>, \<open>Resolve\<close> and
  \<open>Reject\<close> are the calls of the entry's own \<^verbatim>\<open>resolve\<close> and \<^verbatim>\<open>reject\<close>;
  each carries the time of the event in whose handler it happens.
\<close>

datatype ('e, 'r) cq_action =
    Call 'e int
  | Resolve 'e 'r int
  | Reject 'e error int

datatype ('e, 'r) cq_event =
    Enqueue 'e int
  | CallbackSettled "error + 'r" int
      \<comment> \<open>the awaited promise of the callback settled\<close>
  | CooldownTimer int
      \<comment> \<open>the runtime offers to run the 1000 ms timer at this time\<close>

text \<open>Where the one activation of \<^verbatim>\<open>processQueue\<close> that got past line 29 is suspended.\<close>

datatype 'e cq_wait = NotWaiting | WaitCallback 'e | WaitCooldown int

record 'e cq =
  queue :: "'e list"
  processing :: bool
  waiting :: "'e cq_wait"

definition new_queue :: "'e cq" where
  "new_queue = \<lparr>queue = [], processing = False, waiting = NotWaiting\<rparr>"

text \<open>\<^verbatim>\<open>processQueue\<close> up to its \<^verbatim>\<open>await\<close> (lines 28 to 35).\<close>

definition processQueue :: "int \<Rightarrow> 'e cq \<Rightarrow> 'e cq \<times> ('e, 'r) cq_action list" where
  "processQueue now q =
     (if processing q \<or> queue q = [] then (q, [])
      else
        (let request = hd (queue q) in
         (q\<lparr>processing := True, queue := tl (queue q), waiting := WaitCallback request\<rparr>,
          [Call request now])))"

fun cq_step :: "('e, 'r) cq_event \<Rightarrow> 'e cq \<Rightarrow> 'e cq \<times> ('e, 'r) cq_action list" where
  "cq_step (Enqueue e now) q = processQueue now (q\<lparr>queue := queue q @ [e]\<rparr>)"
| "cq_step (CallbackSettled r now) q =
     (case waiting q of
        WaitCallback request \<Rightarrow>
          (q\<lparr>waiting := WaitCooldown (now + 1000)\<rparr>,
           [case r of Inr result \<Rightarrow> Resolve request result now
                    | Inl err \<Rightarrow> Reject request err now])
      | _ \<Rightarrow> (q, []))"
| "cq_step (CooldownTimer now) q =
     (case waiting q of
        WaitCooldown due \<Rightarrow>
          if due \<le> now then processQueue now (q\<lparr>processing := False, waiting := NotWaiting\<rparr>)
          else (q, [])
      | _ \<Rightarrow> (q, []))"

fun cq_run ::
  "('e, 'r) cq_event list \<Rightarrow> 'e cq \<times> ('e, 'r) cq_action list \<Rightarrow> 'e cq \<times> ('e, 'r) cq_action list" where
  "cq_run [] qa = qa"
| "cq_run (ev # evs) (q, acts) = (case cq_step ev q of (q', new) \<Rightarrow> cq_run evs (q', acts @ new))"


subsection \<open>The server: both endpoints over one queue\<close>

text \<open>
  The state of the process: the one \<^verbatim>\<open>conversionQueue\<close> and the programs of the
  requests being served. \<^verbatim>\<open>POST /api/convert\<close> (lines 240 to 334) starts its promise
  chain at once; \<^verbatim>\<open>POST /api/convert-sync\<close> (lines 337 to 405) enqueues its callback.
  An event of the runtime is a request, an event for the program of one request, or the
  timer of the queue. Within one event the order between the response to the client and
  the first actions of the job is not significant.
\<close>

record entry =
  entry_url :: string
  entry_id :: nat
    \<comment> \<open>the request whose promise the entry's resolve and reject settle\<close>

datatype http_body =
    MissingFields
  | JobStarted string
  | SyncPdf sync_result
  | Failure error

datatype server_action =
    Did nat action
      \<comment> \<open>an action of the program that serves the request with this number\<close>
  | Respond nat int http_body

datatype server_event =
    PostConvert nat string string string string
      \<comment> \<open>request number, docxUrl, orderId, callbackUrl, and the decimal text of Date.now()\<close>
  | PostConvertSync nat string int
      \<comment> \<open>request number, docxUrl, time\<close>
  | JobEvent nat job_event int
      \<comment> \<open>an event for the program of a request, at a time\<close>
  | QueueTimer int

record server =
  conversionQueue :: "entry cq"
  async_jobs :: "(nat \<times> unit prog) list"
  sync_jobs :: "(nat \<times> sync_result prog) list"

definition new_server :: server where
  "new_server = \<lparr>conversionQueue = new_queue, async_jobs = [], sync_jobs = []\<rparr>"

definition set_job :: "nat \<Rightarrow> 'a \<Rightarrow> (nat \<times> 'a) list \<Rightarrow> (nat \<times> 'a) list" where
  "set_job rid p jobs = map (\<lambda>(i, x). if i = rid then (i, p) else (i, x)) jobs"

definition drop_job :: "nat \<Rightarrow> (nat \<times> 'a) list \<Rightarrow> (nat \<times> 'a) list" where
  "drop_job rid jobs = filter (\<lambda>(i, x). i \<noteq> rid) jobs"

fun finished :: "'r prog \<Rightarrow> (error + 'r) option" where
  "finished (Done v) = Some (Inr v)"
| "finished (Throw e) = Some (Inl e)"
| "finished p = None"

text \<open>
  What the actions of the queue mean for the server: a call starts the callback of lines
  353 to 394, and the entry's resolve and reject end the request (lines 397 to 403).
\<close>

fun apply_cq ::
  "path \<Rightarrow> (entry, sync_result) cq_action list \<Rightarrow> server \<Rightarrow> server \<times> server_action list" where
  "apply_cq tmpdir [] srv = (srv, [])"
| "apply_cq tmpdir (Call e t # rest) srv =
     (case flush (sync_callback tmpdir (entry_url e)) of
        (acts, p) \<Rightarrow>
          (case apply_cq tmpdir rest (srv\<lparr>sync_jobs := sync_jobs srv @ [(entry_id e, p)]\<rparr>) of
             (srv', later) \<Rightarrow> (srv', map (Did (entry_id e)) acts @ later)))"
| "apply_cq tmpdir (Resolve e r t # rest) srv =
     (case apply_cq tmpdir rest srv of
        (srv', later) \<Rightarrow> (srv', Respond (entry_id e) 200 (SyncPdf r) # later))"
| "apply_cq tmpdir (Reject e err t # rest) srv =
     (case apply_cq tmpdir rest srv of
        (srv', later) \<Rightarrow> (srv', Respond (entry_id e) 500 (Failure err) # later))"

definition current_callback :: "server \<Rightarrow> nat option" where
  "current_callback srv =
     (case waiting (conversionQueue srv) of WaitCallback e \<Rightarrow> Some (entry_id e) | _ \<Rightarrow> None)"

fun server_step :: "path \<Rightarrow> server_event \<Rightarrow> server \<Rightarrow> server \<times> server_action list" where
  "server_step tmpdir (PostConvert rid docxUrl orderId callbackUrl stamp) srv =
     (if docxUrl = [] \<or> orderId = [] \<or> callbackUrl = [] then (srv, [Respond rid 400 MissingFields])
      else
        (let jobId = ''job_'' @ orderId @ ''_'' @ stamp in
         case flush (convert_job tmpdir docxUrl orderId callbackUrl jobId) of
           (acts, p) \<Rightarrow>
             (srv\<lparr>async_jobs := async_jobs srv @ [(rid, p)]\<rparr>,
              map (Did rid) acts @ [Respond rid 200 (JobStarted jobId)])))"
| "server_step tmpdir (PostConvertSync rid docxUrl now) srv =
     (if docxUrl = [] then (srv, [Respond rid 400 MissingFields])
      else
        (case cq_step (Enqueue \<lparr>entry_url = docxUrl, entry_id = rid\<rparr> now) (conversionQueue srv) of
           (q', qacts) \<Rightarrow> apply_cq tmpdir qacts (srv\<lparr>conversionQueue := q'\<rparr>)))"
| "server_step tmpdir (JobEvent rid ev now) srv =
     (case map_of (async_jobs srv) rid of
        Some p \<Rightarrow>
          (case job_step ev p of
             (acts, p') \<Rightarrow> (srv\<lparr>async_jobs := set_job rid p' (async_jobs srv)\<rparr>, map (Did rid) acts))
      | None \<Rightarrow>
          (case map_of (sync_jobs srv) rid of
             None \<Rightarrow> (srv, [])
           | Some p \<Rightarrow>
               (case job_step ev p of
                  (acts, p') \<Rightarrow>
                    (case finished p' of
                       None \<Rightarrow> (srv\<lparr>sync_jobs := set_job rid p' (sync_jobs srv)\<rparr>, map (Did rid) acts)
                     | Some r \<Rightarrow>
                         (if current_callback srv = Some rid then
                            (case cq_step (CallbackSettled r now) (conversionQueue srv) of
                               (q', qacts) \<Rightarrow>
                                 (case apply_cq tmpdir qacts
                                         (srv\<lparr>conversionQueue := q', sync_jobs := drop_job rid (sync_jobs srv)\<rparr>) of
                                    (srv', later) \<Rightarrow> (srv', map (Did rid) acts @ later)))
                          else (srv\<lparr>sync_jobs := drop_job rid (sync_jobs srv)\<rparr>, map (Did rid) acts))))))"
| "server_step tmpdir (QueueTimer now) srv =
     (case cq_step (CooldownTimer now) (conversionQueue srv) of
        (q', qacts) \<Rightarrow> apply_cq tmpdir qacts (srv\<lparr>conversionQueue := q'\<rparr>))"

fun server_run ::
  "path \<Rightarrow> server_event list \<Rightarrow> server \<times> server_action list \<Rightarrow> server \<times> server_action list" where
  "server_run tmpdir [] sa = sa"
| "server_run tmpdir (ev # evs) (srv, acts) =
     (case server_step tmpdir ev srv of (srv', new) \<Rightarrow> server_run tmpdir evs (srv', acts @ new))"

text \<open>The requests whose converter process has been spawned and has not closed.\<close>

fun converting :: "'r prog \<Rightarrow> bool" where
  "converting (Supervise s k) = (phase s = Running)"
| "converting p = False"

definition conversions_running :: "server \<Rightarrow> nat list" where
  "conversions_running srv =
     map fst (filter (\<lambda>(i, p). converting p) (async_jobs srv)) @
     map fst (filter (\<lambda>(i, p). converting p) (sync_jobs srv))"

section \<open>Predicates of the statements\<close>

subsection \<open>Supervisor\<close>

text \<open>
  What holds of every state of a call of \<open>convertDocxToPdf\<close>: the start time and the
  deadline are fixed, and while the deadline timer is pending the child has been spawned,
  the promise is pending and no signal has been sent.
\<close>

definition sup_inv :: "int \<Rightarrow> int \<Rightarrow> sup \<Rightarrow> bool" where
  "sup_inv now tmo s =
     (startTime s = now \<and> timeoutMs s = tmo \<and>
      (timeoutId s \<noteq> None \<longrightarrow>
         phase s = Running \<and> settled s = None \<and> \<not> processKilled s \<and>
         \<not> killed (child s) \<and> graceTimer s = None) \<and>
      (phase s = Writing \<longrightarrow>
         settled s = None \<and> \<not> processKilled s \<and> \<not> killed (child s) \<and>
         graceTimer s = None \<and> timeoutId s = None))"

text \<open>The events that end the wait for the child: close and error.\<close>

fun close_or_error :: "sup_event \<Rightarrow> bool" where
  "close_or_error (ChildClose t) = True"
| "close_or_error (ChildError e) = True"
| "close_or_error ev = False"

text \<open>The deadline handler has run and set \<^verbatim>\<open>processKilled\<close>; close has not come yet.\<close>

definition soft_killed :: "int \<Rightarrow> int \<Rightarrow> sup \<Rightarrow> bool" where
  "soft_killed now tmo s =
     (startTime s = now \<and> timeoutMs s = tmo \<and> phase s = Running \<and> settled s = None \<and>
      processKilled s \<and> timeoutId s = None)"

text \<open>The deadline timer is gone, and the grace timer, if pending, is due at \<open>g\<close>.\<close>

definition grace_due :: "int \<Rightarrow> sup \<Rightarrow> bool" where
  "grace_due g s =
     (timeoutId s = None \<and> phase s \<noteq> Writing \<and> (graceTimer s = None \<or> graceTimer s = Some g))"

subsection \<open>Delivery attempts\<close>

text \<open>
  A delivery attempt is a request to the callback address. Over the tree of a program:
  \<open>silent\<close>, no run makes one; \<open>quiet_done\<close>, no run makes one and none throws;
  \<open>posts_once\<close>, every run that ends has made exactly one and has not thrown.
\<close>

fun is_post :: "action \<Rightarrow> bool" where
  "is_post (PostWebhook url body) = True"
| "is_post a = False"

primrec silent :: "'r prog \<Rightarrow> bool" where
  "silent (Done v) = True"
| "silent (Throw e) = True"
| "silent (Emit a p) = (\<not> is_post a \<and> silent p)"
| "silent (Await a k) = (\<not> is_post a \<and> (\<forall>r. silent (k r)))"
| "silent (Supervise s k) = (\<forall>r. silent (k r))"

primrec quiet_done :: "'r prog \<Rightarrow> bool" where
  "quiet_done (Done v) = True"
| "quiet_done (Throw e) = False"
| "quiet_done (Emit a p) = (\<not> is_post a \<and> quiet_done p)"
| "quiet_done (Await a k) = (\<not> is_post a \<and> (\<forall>r. quiet_done (k r)))"
| "quiet_done (Supervise s k) = (\<forall>r. quiet_done (k r))"

primrec posts_once :: "'r prog \<Rightarrow> bool" where
  "posts_once (Done v) = False"
| "posts_once (Throw e) = False"
| "posts_once (Emit a p) = (if is_post a then quiet_done p else posts_once p)"
| "posts_once (Await a k) = (if is_post a then (\<forall>r. quiet_done (k r)) else (\<forall>r. posts_once (k r)))"
| "posts_once (Supervise s k) = (\<forall>r. posts_once (k r))"

text \<open>
  The same for a job in the middle of a run: the attempts counted in its actions so far,
  and what the program that is left may still do.
\<close>

definition count_posts :: "action list \<Rightarrow> nat" where
  "count_posts acts = length (filter is_post acts)"

fun rest_once :: "'r prog \<Rightarrow> bool" where
  "rest_once (Await a k) = (\<not> is_post a \<and> (\<forall>r. posts_once (k r)))"
| "rest_once (Supervise s k) = (\<forall>r. posts_once (k r))"
| "rest_once p = False"

fun rest_quiet :: "'r prog \<Rightarrow> bool" where
  "rest_quiet (Done v) = True"
| "rest_quiet (Await a k) = (\<forall>r. quiet_done (k r))"
| "rest_quiet (Supervise s k) = (\<forall>r. quiet_done (k r))"
| "rest_quiet p = False"

definition job_inv :: "action list \<times> 'r prog \<Rightarrow> bool" where
  "job_inv ap = (count_posts (fst ap) = 0 \<and> rest_once (snd ap) \<or>
                 count_posts (fst ap) = 1 \<and> rest_quiet (snd ap))"

subsection \<open>Queue\<close>

text \<open>The entries whose callback was called, and the entries enqueued, in order.\<close>

primrec called :: "('e, 'r) cq_action list \<Rightarrow> 'e list" where
  "called [] = []"
| "called (a # as) = (case a of Call e t \<Rightarrow> e # called as | _ \<Rightarrow> called as)"

primrec enqueued :: "('e, 'r) cq_event list \<Rightarrow> 'e list" where
  "enqueued [] = []"
| "enqueued (ev # evs) = (case ev of Enqueue e t \<Rightarrow> e # enqueued evs | _ \<Rightarrow> enqueued evs)"

fun event_time :: "('e, 'r) cq_event \<Rightarrow> int" where
  "event_time (Enqueue e t) = t"
| "event_time (CallbackSettled r t) = t"
| "event_time (CooldownTimer t) = t"

text \<open>
  The monitor of the queue's actions. There is one slot: free (with the time the last entry
  was settled, if any) or busy with the entry whose callback runs. A call needs a free
  slot and, after a settling at time \<open>ts\<close>, a time of at least \<open>ts + 1000\<close>; a resolve or
  reject must be of the entry in the slot. \<open>serial\<close> holds when the monitor accepts.
\<close>

datatype 'e slot = Free "int option" | Busy 'e

fun cooled :: "int option \<Rightarrow> int \<Rightarrow> bool" where
  "cooled None t = True"
| "cooled (Some ts) t = (ts + 1000 \<le> t)"

fun slot_step :: "'e slot \<Rightarrow> ('e, 'r) cq_action \<Rightarrow> 'e slot option" where
  "slot_step (Free prev) (Call e t) = (if cooled prev t then Some (Busy e) else None)"
| "slot_step (Busy e) (Resolve e' v ts) = (if e' = e then Some (Free (Some ts)) else None)"
| "slot_step (Busy e) (Reject e' x ts) = (if e' = e then Some (Free (Some ts)) else None)"
| "slot_step s a = None"

fun slot_run :: "'e slot \<Rightarrow> ('e, 'r) cq_action list \<Rightarrow> 'e slot option" where
  "slot_run s [] = Some s"
| "slot_run s (a # as) = (case slot_step s a of None \<Rightarrow> None | Some s' \<Rightarrow> slot_run s' as)"

definition serial :: "('e, 'r) cq_action list \<Rightarrow> bool" where
  "serial log = (slot_run (Free None) log \<noteq> None)"

text \<open>The invariant that ties the state of the queue to the monitor.\<close>

definition cq_inv :: "int \<Rightarrow> 'e cq \<Rightarrow> ('e, 'r) cq_action list \<Rightarrow> bool" where
  "cq_inv t q log =
     (case slot_run (Free None) log of
        None \<Rightarrow> False
      | Some sl \<Rightarrow>
          (case waiting q of
             NotWaiting \<Rightarrow>
               \<not> processing q \<and> queue q = [] \<and>
               (case sl of Free prev \<Rightarrow> cooled prev t | Busy e \<Rightarrow> False)
           | WaitCallback e \<Rightarrow> processing q \<and> sl = Busy e
           | WaitCooldown due \<Rightarrow> processing q \<and> (case sl of Free (Some ts) \<Rightarrow> due = ts + 1000 | _ \<Rightarrow> False)))"

text \<open>The entries settled, each with what it was settled with (Inl: rejected).\<close>

primrec settlements :: "('e, 'r) cq_action list \<Rightarrow> ('e \<times> (error + 'r)) list" where
  "settlements [] = []"
| "settlements (a # as) =
     (case a of
        Call e t \<Rightarrow> settlements as
      | Resolve e v t \<Rightarrow> (e, Inr v) # settlements as
      | Reject e x t \<Rightarrow> (e, Inl x) # settlements as)"

fun in_slot :: "'e slot \<Rightarrow> 'e list" where
  "in_slot (Busy e) = [e]"
| "in_slot (Free prev) = []"

text \<open>
  A complete schedule: the entries are enqueued, then each callback in turn settles
  with its result and the cooldown timer runs when it is due.
\<close>

definition enqueue_events :: "('e \<times> int) list \<Rightarrow> ('e, 'r) cq_event list" where
  "enqueue_events es = map (\<lambda>(e, t). Enqueue e t) es"

definition settle_events :: "((error + 'r) \<times> int) list \<Rightarrow> ('e, 'r) cq_event list" where
  "settle_events rs = concat (map (\<lambda>(r, t). [CallbackSettled r t, CooldownTimer (t + 1000)]) rs)"

definition three_jobs :: "(nat, string) cq_event list" where
  "three_jobs =
     [Enqueue 1 0, Enqueue 2 1, CallbackSettled (Inl (SystemError ''boom'')) 7, CooldownTimer 500,
      CooldownTimer 1007, Enqueue 3 1100, CallbackSettled (Inr ''pdf'') 1200, CooldownTimer 2200]"

subsection \<open>Scenarios\<close>

text \<open>
  The paths the program has created and not removed, every call of \<^verbatim>\<open>fs\<close> taken
  to succeed: \<^verbatim>\<open>fs.rm\<close> with \<^verbatim>\<open>recursive\<close> removes a directory and what is in it.
  \<^verbatim>\<open>fs.mkdir\<close> is counted as creating the directory it names; the directories above
  it (the temporary directory, for a name without a slash) are taken to exist already.
\<close>

fun staged :: "path list \<Rightarrow> action \<Rightarrow> path list" where
  "staged ps (FsWriteFile p b) = (if p \<in> set ps then ps else ps @ [p])"
| "staged ps (FsMkdir p) = (if p \<in> set ps then ps else ps @ [p])"
| "staged ps (FsUnlink p) = removeAll p ps"
| "staged ps (FsRm d) = filter (\<lambda>p. p \<noteq> d \<and> \<not> startsWith p (d @ ''/'')) ps"
| "staged ps a = ps"

definition left_on_disk :: "action list \<Rightarrow> path list" where
  "left_on_disk acts = foldl staged [] acts"


definition failing_conversion :: "job_event list" where
  "failing_conversion =
     [Reply (Inr (VClock 8 ''8_cd'')), SupEvent (WriteFileDone None 9),
      SupEvent (StderrData ''Error: source file could not be loaded''),
      SupEvent (ChildExit (ExitCode 1)), SupEvent (ChildClose 100)]"

definition sync_failure :: "job_event list" where
  "sync_failure =
     [Reply (Inr (VResponse ok200)), Reply (Inr (VBuffer ''PK'')), Reply (Inr (VClock 7 ''7_ab'')),
      Reply (Inr VUnit)] @ failing_conversion"

definition async_failure :: "job_event list" where
  "async_failure =
     [Reply (Inr (VClock 7 ''7'')), Reply (Inr (VResponse ok200)), Reply (Inr (VBuffer ''PK'')),
      Reply (Inr VUnit)] @ failing_conversion @ [Reply (Inr VUnit)]"

text \<open>Two asynchronous requests, the second accepted while the first is being served.\<close>

definition two_async :: "server_event list" where
  "two_async =
     [PostConvert 1 ''http://files/a.docx'' ''A'' ''http://app/hook'' ''100'',
      PostConvert 2 ''http://files/b.docx'' ''B'' ''http://app/hook'' ''101'',
      JobEvent 1 (Reply (Inr (VClock 100 ''100''))) 100,
      JobEvent 2 (Reply (Inr (VClock 101 ''101''))) 101,
      JobEvent 1 (Reply (Inr (VResponse ok200))) 150,
      JobEvent 1 (Reply (Inr (VBuffer ''PK-a''))) 160,
      JobEvent 1 (Reply (Inr VUnit)) 161,
      JobEvent 1 (Reply (Inr (VClock 161 ''161_x1''))) 161,
      JobEvent 1 (SupEvent (WriteFileDone None 162)) 162,
      JobEvent 2 (Reply (Inr (VResponse ok200))) 170,
      JobEvent 2 (Reply (Inr (VBuffer ''PK-b''))) 180,
      JobEvent 2 (Reply (Inr VUnit)) 181,
      JobEvent 2 (Reply (Inr (VClock 181 ''181_x2''))) 181,
      JobEvent 2 (SupEvent (WriteFileDone None 182)) 182]"

text \<open>
  The lexicographically first of a list of names: a name of the list that no name of the
  list precedes, in the order of the byte values of the characters.
\<close>

definition lexicographically_first :: "string \<Rightarrow> string list \<Rightarrow> bool" where
  "lexicographically_first f names = (f \<in> set names \<and> (\<forall>g \<in> set names. f \<le> g))"


subsection \<open>Server\<close>

text \<open>
  The synchronous jobs follow the queue: while the queue awaits the callback of an entry,
  the program of that entry is the only one; otherwise there is none.
\<close>

definition sync_serial :: "server \<Rightarrow> bool" where
  "sync_serial srv =
     ((processing (conversionQueue srv) \<longleftrightarrow> waiting (conversionQueue srv) \<noteq> NotWaiting) \<and>
      (case waiting (conversionQueue srv) of
         WaitCallback e \<Rightarrow> (\<exists>p. sync_jobs srv = [(entry_id e, p)])
       | _ \<Rightarrow> sync_jobs srv = []))"

section \<open>The supervisor: deadline, escalation and outcome\<close>

text \<open>What a job that awaits the promise does on an event of the supervisor.\<close>

lemma job_step_settles:
  "sup_step e s = (s', a) \<Longrightarrow> settled s' = Some r \<Longrightarrow>
   job_step (SupEvent e) (Supervise s k) = (a @ fst (flush (k r)), snd (flush (k r)))"
  by (simp only: job_step.simps prod.case option.case)

lemma job_step_pending:
  "sup_step e s = (s', a) \<Longrightarrow> settled s' = None \<Longrightarrow>
   job_step (SupEvent e) (Supervise s k) = (a, Supervise s' k)"
  by (simp only: job_step.simps prod.case option.case)

lemma sup_run_append:
  "sup_run (es @ fs) sa = sup_run fs (sup_run es sa)"
  by (induction es arbitrary: sa) (auto split: prod.splits)

lemma sup_inv_start:
  "sup_inv now tmo (fst (convertDocxToPdf tmp now stamp buf out tmo))"
  by (simp add: convertDocxToPdf_def sup_inv_def Let_def new_child_def)

lemma sup_inv_step:
  "sup_inv now tmo s \<Longrightarrow> sup_inv now tmo (fst (sup_step e s))"
  by (cases e)
     (auto simp: sup_inv_def on_deadline_def on_grace_def on_close_def on_readdir_def
        on_stat_def on_error_def reject_def resolve_def kill_def on_exit_def has_exited_def Let_def
        split: option.splits sum.splits list.splits sup_phase.splits if_splits exit_status.splits)

lemma sup_inv_run:
  "sup_inv now tmo (fst sa) \<Longrightarrow> sup_inv now tmo (fst (sup_run es sa))"
proof (induction es arbitrary: sa)
  case Nil
  then show ?case by simp
next
  case (Cons e es)
  obtain s a where sa: "sa = (s, a)" by (cases sa)
  obtain s' n where st: "sup_step e s = (s', n)" by (cases "sup_step e s")
  from Cons.prems sa have "sup_inv now tmo s" by simp
  then have "sup_inv now tmo (fst (sup_step e s))" by (rule sup_inv_step)
  with st have "sup_inv now tmo (fst (s', a @ n))" by simp
  then have "sup_inv now tmo (fst (sup_run es (s', a @ n)))" by (rule Cons.IH)
  with sa st show ?case by simp
qed

lemma deadline_fires:
  assumes "sup_inv now tmo s" and "Kill SIGTERM \<in> set (snd (sup_step (DeadlineTimer t) s))"
  shows "soft_killed now tmo (fst (sup_step (DeadlineTimer t) s))"
  using assms
  by (auto simp: sup_inv_def soft_killed_def on_deadline_def split: option.splits if_splits)

lemma soft_killed_step:
  "soft_killed now tmo s \<Longrightarrow> \<not> close_or_error e \<Longrightarrow> soft_killed now tmo (fst (sup_step e s))"
  by (cases e)
     (auto simp: soft_killed_def on_grace_def split: option.splits if_splits)

lemma soft_killed_run:
  "soft_killed now tmo (fst sa) \<Longrightarrow> \<forall>e\<in>set es. \<not> close_or_error e \<Longrightarrow>
   soft_killed now tmo (fst (sup_run es sa))"
proof (induction es arbitrary: sa)
  case Nil
  then show ?case by simp
next
  case (Cons e es)
  obtain s a where sa: "sa = (s, a)" by (cases sa)
  obtain s' n where st: "sup_step e s = (s', n)" by (cases "sup_step e s")
  from Cons.prems sa have "soft_killed now tmo s" and "\<not> close_or_error e" by simp_all
  then have "soft_killed now tmo (fst (sup_step e s))" by (rule soft_killed_step)
  with st have "soft_killed now tmo (fst (s', a @ n))" by simp
  moreover from Cons.prems have "\<forall>e\<in>set es. \<not> close_or_error e" by simp
  ultimately have "soft_killed now tmo (fst (sup_run es (s', a @ n)))" by (rule Cons.IH)
  with sa st show ?case by simp
qed

lemma soft_killed_close:
  "soft_killed now tmo s \<Longrightarrow>
   settled (fst (sup_step (ChildClose t) s)) =
     Some (Inl (ConversionTimeout tmo (t - now) (or_none (stdout s)) (or_none (stderr s))))"
  by (simp add: soft_killed_def on_close_def reject_def Let_def)

lemma settled_step:
  "settled s = Some r \<Longrightarrow> settled (fst (sup_step e s)) = Some r"
  by (cases e)
     (auto simp: on_deadline_def on_grace_def on_close_def on_readdir_def
        on_stat_def on_error_def reject_def resolve_def Let_def
        split: option.splits sum.splits list.splits sup_phase.splits if_splits)

lemma settled_run:
  "settled (fst sa) = Some r \<Longrightarrow> settled (fst (sup_run es sa)) = Some r"
proof (induction es arbitrary: sa)
  case Nil
  then show ?case by simp
next
  case (Cons e es)
  obtain s a where sa: "sa = (s, a)" by (cases sa)
  obtain s' n where st: "sup_step e s = (s', n)" by (cases "sup_step e s")
  from Cons.prems sa have "settled s = Some r" by simp
  then have "settled (fst (sup_step e s)) = Some r" by (rule settled_step)
  with st have "settled (fst (s', a @ n)) = Some r" by simp
  then have "settled (fst (sup_run es (s', a @ n))) = Some r" by (rule Cons.IH)
  with sa st show ?case by simp
qed

text \<open>
  Claim C10. Once the deadline timer has run its handler and the graceful termination
  signal has been sent, the promise of \<open>convertDocxToPdf\<close> is rejected with the timeout
  error at the close event, however the process ends in between (with exit code 0 too);
  a caller that awaits the promise resumes with that error thrown, and no later event
  changes the outcome: it is never a resolved path. The events between the signal and
  close are any but close and error.
\<close>

theorem timeout_after_soft_kill:
  assumes reach: "sup_run evs1 (convertDocxToPdf tmp now stamp buf out tmo) = (s1, a1)"
    and fired: "sup_step (DeadlineTimer t1) s1 = (s2, a2)"
    and sigterm: "Kill SIGTERM \<in> set a2"
    and quiet: "\<forall>e\<in>set evs2. \<not> close_or_error e"
    and later: "sup_run evs2 (s2, a1 @ a2) = (s3, a3)"
    and closed: "sup_step (ChildClose t2) s3 = (s4, a4)"
  shows "settled s4 =
           Some (Inl (ConversionTimeout tmo (t2 - now) (or_none (stdout s3)) (or_none (stderr s3))))
         \<and> (\<forall>k. job_step (SupEvent (ChildClose t2)) (Supervise s3 k) =
               (a4 @ fst (flush (k (Inl (ConversionTimeout tmo (t2 - now)
                                          (or_none (stdout s3)) (or_none (stderr s3)))))),
                snd (flush (k (Inl (ConversionTimeout tmo (t2 - now)
                                      (or_none (stdout s3)) (or_none (stderr s3))))))))
         \<and> (\<forall>evs3 a. settled (fst (sup_run evs3 (s4, a))) = settled s4)"
proof -
  have "sup_inv now tmo (fst (sup_run evs1 (convertDocxToPdf tmp now stamp buf out tmo)))"
    by (rule sup_inv_run) (rule sup_inv_start)
  with reach have "sup_inv now tmo s1" by simp
  with fired sigterm have "soft_killed now tmo s2"
    using deadline_fires [of now tmo s1 t1] by simp
  then have "soft_killed now tmo (fst (sup_run evs2 (s2, a1 @ a2)))"
    using quiet by (simp add: soft_killed_run)
  with later have "soft_killed now tmo s3" by simp
  then have out: "settled s4 =
      Some (Inl (ConversionTimeout tmo (t2 - now) (or_none (stdout s3)) (or_none (stderr s3))))"
    using soft_killed_close [of now tmo s3 t2] closed by simp
  then have final: "\<forall>evs3 a. settled (fst (sup_run evs3 (s4, a))) = settled s4"
    by (simp add: settled_run)
  from closed out have caller: "\<forall>k. job_step (SupEvent (ChildClose t2)) (Supervise s3 k) =
      (a4 @ fst (flush (k (Inl (ConversionTimeout tmo (t2 - now)
                                  (or_none (stdout s3)) (or_none (stderr s3)))))),
       snd (flush (k (Inl (ConversionTimeout tmo (t2 - now)
                             (or_none (stdout s3)) (or_none (stderr s3)))))))"
    by (simp add: job_step_settles)
  from out caller final show ?thesis by blast
qed

theorem timeout_after_soft_kill_witness:
  "Kill SIGTERM \<in> set (snd (sup_step (DeadlineTimer 60005)
      (fst (sup_run [WriteFileDone None 5, StdoutData ''convert a.docx'']
         (convertDocxToPdf ''/tmp'' 0 ''1_abc'' ''PK'' ''/tmp/out'' 60000)))))
   \<and> settled (fst (sup_run
        [WriteFileDone None 5, StdoutData ''convert a.docx'', DeadlineTimer 60005,
         ChildExit (ExitCode 0), ChildClose 60200]
        (convertDocxToPdf ''/tmp'' 0 ''1_abc'' ''PK'' ''/tmp/out'' 60000)))
      = Some (Inl (ConversionTimeout 60000 60200 ''convert a.docx'' ''none''))
   \<and> snd (job_run
        ([Reply (Inr (VResponse ok200)), Reply (Inr (VBuffer ''PK'')), Reply (Inr (VClock 0 ''0_ab'')),
          Reply (Inr VUnit), Reply (Inr (VClock 0 ''1_abc''))] @
         map SupEvent
           [WriteFileDone None 5, StdoutData ''convert a.docx'', DeadlineTimer 60005,
            ChildExit (ExitCode 0), ChildClose 60200])
        (flush (sync_callback ''/tmp'' ''http://files/a.docx'')))
      = Throw (ConversionTimeout 60000 60200 ''convert a.docx'' ''none'')"
proof -
  let ?c = "convertDocxToPdf ''/tmp'' 0 ''1_abc'' ''PK'' ''/tmp/out'' 60000"
  let ?r1 = "sup_run [WriteFileDone None 5, StdoutData ''convert a.docx''] ?c"
  let ?r2 = "sup_step (DeadlineTimer 60005) (fst ?r1)"
  let ?r3 = "sup_run [ChildExit (ExitCode 0)] (fst ?r2, snd ?r1 @ snd ?r2)"
  let ?r4 = "sup_step (ChildClose 60200) (fst ?r3)"
  have h1: "sup_run [WriteFileDone None 5, StdoutData ''convert a.docx''] ?c = (fst ?r1, snd ?r1)"
    by simp
  have h2: "sup_step (DeadlineTimer 60005) (fst ?r1) = (fst ?r2, snd ?r2)"
    by simp
  have h3: "Kill SIGTERM \<in> set (snd ?r2)"
    by (simp add: convertDocxToPdf_def Let_def new_child_def on_deadline_def timer_delay_def)
  have h4: "\<forall>e\<in>set [ChildExit (ExitCode 0)]. \<not> close_or_error e"
    by simp
  have h5: "sup_run [ChildExit (ExitCode 0)] (fst ?r2, snd ?r1 @ snd ?r2) = (fst ?r3, snd ?r3)"
    by simp
  have h6: "sup_step (ChildClose 60200) (fst ?r3) = (fst ?r4, snd ?r4)"
    by simp
  note th = timeout_after_soft_kill [OF h1 h2 h3 h4 h5 h6]
  show ?thesis
    using th
    by (simp add: convertDocxToPdf_def Let_def join_def normalize_path_def timer_delay_def new_child_def on_deadline_def
          kill_def has_exited_def on_exit_def on_close_def reject_def or_none_def
          libreoffice_args_def ok200_def sync_callback_def fetch_def response_buffer_def
          clock_def await_unit_def convert_def)
qed

lemma grace_due_step:
  "grace_due g s \<Longrightarrow> grace_due g (fst (sup_step e s))"
  by (cases e)
     (auto simp: grace_due_def on_grace_def on_close_def on_readdir_def
        on_stat_def on_error_def reject_def resolve_def Let_def
        split: option.splits sum.splits list.splits sup_phase.splits if_splits)

lemma grace_due_run:
  "grace_due g (fst sa) \<Longrightarrow> grace_due g (fst (sup_run es sa))"
proof (induction es arbitrary: sa)
  case Nil
  then show ?case by simp
next
  case (Cons e es)
  obtain s a where sa: "sa = (s, a)" by (cases sa)
  obtain s' n where st: "sup_step e s = (s', n)" by (cases "sup_step e s")
  from Cons.prems sa have "grace_due g s" by simp
  then have "grace_due g (fst (sup_step e s))" by (rule grace_due_step)
  with st have "grace_due g (fst (s', a @ n))" by simp
  then have "grace_due g (fst (sup_run es (s', a @ n)))" by (rule Cons.IH)
  with sa st show ?case by simp
qed

lemma grace_fires:
  assumes "grace_due g s" and "graceTimer s \<noteq> None" and "\<not> has_exited (child s)"
  shows "(t < g \<longrightarrow> sup_step (GraceTimer t) s = (s, [])) \<and>
         (g \<le> t \<longrightarrow> Kill SIGKILL \<in> set (snd (sup_step (GraceTimer t) s)))"
  using assms by (auto simp: grace_due_def on_grace_def has_exited_def)

lemma deadline_due:
  assumes "sup_inv now tmo s" and "timeoutId s = Some due" and "due \<le> t"
    and "\<not> has_exited (child s)"
  shows "snd (sup_step (DeadlineTimer t) s) =
           [ConsoleError ''Conversion timeout, killing process...'', Kill SIGTERM]
         \<and> graceTimer (fst (sup_step (DeadlineTimer t) s)) = Some (t + 5000)
         \<and> grace_due (t + 5000) (fst (sup_step (DeadlineTimer t) s))"
  using assms by (auto simp: sup_inv_def on_deadline_def has_exited_def grace_due_def)

text \<open>
  Claim C1. In any state a call of \<open>convertDocxToPdf\<close> reaches, when the deadline timer
  is pending and due and the child has not exited, its handler sends SIGTERM and sets the
  grace timer for 5000 ms later. From then on, as long as neither close nor error has
  come: the grace timer does nothing before that time, it sends SIGKILL at or after it
  when the child has still not exited, and the close event rejects the promise with the
  timeout error that carries the deadline, the elapsed time since the start and the
  captured stdout and stderr; a caller that awaits the promise resumes with that error
  thrown.
\<close>

theorem deadline_escalation:
  assumes reach: "sup_run evs1 (convertDocxToPdf tmp now stamp buf out tmo) = (s1, a1)"
    and pending: "timeoutId s1 = Some due"
    and due: "due \<le> t1"
    and alive: "\<not> has_exited (child s1)"
    and fired: "sup_step (DeadlineTimer t1) s1 = (s2, a2)"
  shows "Kill SIGTERM \<in> set a2 \<and> graceTimer s2 = Some (t1 + 5000) \<and>
    (\<forall>evs2 s3 a3.
       (\<forall>e\<in>set evs2. \<not> close_or_error e) \<and> sup_run evs2 (s2, a1 @ a2) = (s3, a3) \<longrightarrow>
       (\<forall>t3. graceTimer s3 \<noteq> None \<and> \<not> has_exited (child s3) \<longrightarrow>
          (t3 < t1 + 5000 \<longrightarrow> sup_step (GraceTimer t3) s3 = (s3, [])) \<and>
          (t1 + 5000 \<le> t3 \<longrightarrow> Kill SIGKILL \<in> set (snd (sup_step (GraceTimer t3) s3)))) \<and>
       (\<forall>t2. settled (fst (sup_step (ChildClose t2) s3)) =
          Some (Inl (ConversionTimeout tmo (t2 - now) (or_none (stdout s3)) (or_none (stderr s3)))) \<and>
          (\<forall>k. snd (job_step (SupEvent (ChildClose t2)) (Supervise s3 k)) =
             snd (flush (k (Inl (ConversionTimeout tmo (t2 - now)
                                   (or_none (stdout s3)) (or_none (stderr s3)))))))))"
proof -
  have "sup_inv now tmo (fst (sup_run evs1 (convertDocxToPdf tmp now stamp buf out tmo)))"
    by (rule sup_inv_run) (rule sup_inv_start)
  with reach have inv: "sup_inv now tmo s1" by simp
  from deadline_due [OF inv pending due alive] fired
  have a2: "a2 = [ConsoleError ''Conversion timeout, killing process...'', Kill SIGTERM]"
    and g2: "graceTimer s2 = Some (t1 + 5000)"
    and gd: "grace_due (t1 + 5000) s2"
    by simp_all
  from a2 have sigterm: "Kill SIGTERM \<in> set a2" by simp
  with inv fired have sk: "soft_killed now tmo s2"
    using deadline_fires [of now tmo s1 t1] by simp
  have rest: "(\<forall>t3. graceTimer s3 \<noteq> None \<and> \<not> has_exited (child s3) \<longrightarrow>
          (t3 < t1 + 5000 \<longrightarrow> sup_step (GraceTimer t3) s3 = (s3, [])) \<and>
          (t1 + 5000 \<le> t3 \<longrightarrow> Kill SIGKILL \<in> set (snd (sup_step (GraceTimer t3) s3)))) \<and>
       (\<forall>t2. settled (fst (sup_step (ChildClose t2) s3)) =
          Some (Inl (ConversionTimeout tmo (t2 - now) (or_none (stdout s3)) (or_none (stderr s3)))) \<and>
          (\<forall>k. snd (job_step (SupEvent (ChildClose t2)) (Supervise s3 k)) =
             snd (flush (k (Inl (ConversionTimeout tmo (t2 - now)
                                   (or_none (stdout s3)) (or_none (stderr s3))))))))"
    if quiet: "\<forall>e\<in>set evs2. \<not> close_or_error e"
      and later: "sup_run evs2 (s2, a1 @ a2) = (s3, a3)"
    for evs2 s3 a3
  proof -
    from sk have "soft_killed now tmo (fst (sup_run evs2 (s2, a1 @ a2)))"
      using quiet by (simp add: soft_killed_run)
    with later have sk3: "soft_killed now tmo s3" by simp
    from gd have "grace_due (t1 + 5000) (fst (sup_run evs2 (s2, a1 @ a2)))"
      by (simp add: grace_due_run)
    with later have gd3: "grace_due (t1 + 5000) s3" by simp
    have caller: "snd (job_step (SupEvent (ChildClose t2)) (Supervise s3 k)) =
        snd (flush (k (Inl (ConversionTimeout tmo (t2 - now)
                              (or_none (stdout s3)) (or_none (stderr s3))))))" for t2 k
    proof -
      obtain s4 a4 where st: "sup_step (ChildClose t2) s3 = (s4, a4)"
        by (cases "sup_step (ChildClose t2) s3")
      with soft_killed_close [OF sk3, of t2]
      have "settled s4 = Some (Inl (ConversionTimeout tmo (t2 - now)
                                      (or_none (stdout s3)) (or_none (stderr s3))))"
        by simp
      with st show ?thesis by (simp add: job_step_settles)
    qed
    show ?thesis
      using grace_fires [OF gd3] soft_killed_close [OF sk3] caller by blast
  qed
  from sigterm g2 rest show ?thesis by blast
qed

theorem deadline_escalation_witness:
  "Kill SIGTERM \<in> set (snd (sup_step (DeadlineTimer 60005)
      (fst (sup_run [WriteFileDone None 5, StdoutData ''convert a.docx'']
         (convertDocxToPdf ''/tmp'' 0 ''1_abc'' ''PK'' ''/tmp/out'' 60000)))))
   \<and> Kill SIGKILL \<in> set (snd (sup_run
        [WriteFileDone None 5, StdoutData ''convert a.docx'', DeadlineTimer 60005,
         StderrData ''busy'', GraceTimer 65005]
        (convertDocxToPdf ''/tmp'' 0 ''1_abc'' ''PK'' ''/tmp/out'' 60000)))
   \<and> settled (fst (sup_run
        [WriteFileDone None 5, StdoutData ''convert a.docx'', DeadlineTimer 60005,
         StderrData ''busy'', GraceTimer 65005, ChildExit (ExitSignal SIGKILL), ChildClose 65020]
        (convertDocxToPdf ''/tmp'' 0 ''1_abc'' ''PK'' ''/tmp/out'' 60000)))
      = Some (Inl (ConversionTimeout 60000 65020 ''convert a.docx'' ''busy''))"
proof -
  let ?c = "convertDocxToPdf ''/tmp'' 0 ''1_abc'' ''PK'' ''/tmp/out'' 60000"
  let ?r1 = "sup_run [WriteFileDone None 5, StdoutData ''convert a.docx''] ?c"
  let ?r2 = "sup_step (DeadlineTimer 60005) (fst ?r1)"
  have h1: "sup_run [WriteFileDone None 5, StdoutData ''convert a.docx''] ?c = (fst ?r1, snd ?r1)"
    by simp
  have h2: "timeoutId (fst ?r1) = Some 60005"
    by (simp add: convertDocxToPdf_def Let_def timer_delay_def)
  have h3: "(60005::int) \<le> 60005" by simp
  have h4: "\<not> has_exited (child (fst ?r1))"
    by (simp add: convertDocxToPdf_def Let_def has_exited_def new_child_def)
  have h5: "sup_step (DeadlineTimer 60005) (fst ?r1) = (fst ?r2, snd ?r2)"
    by simp
  note th = deadline_escalation [OF h1 h2 h3 h4 h5]
  show ?thesis
    using th
    by (simp add: convertDocxToPdf_def Let_def join_def normalize_path_def timer_delay_def new_child_def on_deadline_def
          kill_def has_exited_def on_exit_def on_close_def on_grace_def reject_def or_none_def
          libreoffice_args_def)
qed

section \<open>The callers of the supervisor\<close>

text \<open>
  A job that awaits \<open>convertDocxToPdf\<close> sees the events of the supervisor until the
  promise settles, and then resumes with its value or with its error thrown.
\<close>

lemma sup_run_acts:
  "sup_run evs (s, a) = (fst (sup_run evs (s, [])), a @ snd (sup_run evs (s, [])))"
proof (induction evs arbitrary: s a)
  case Nil
  then show ?case by simp
next
  case (Cons e evs)
  obtain s' n where st: "sup_step e s = (s', n)" by (cases "sup_step e s")
  have "sup_run (e # evs) (s, a) = sup_run evs (s', a @ n)" using st by simp
  also have "\<dots> = (fst (sup_run evs (s', [])), (a @ n) @ snd (sup_run evs (s', [])))"
    by (rule Cons.IH)
  finally have l: "sup_run (e # evs) (s, a) =
      (fst (sup_run evs (s', [])), (a @ n) @ snd (sup_run evs (s', [])))" .
  have "sup_run (e # evs) (s, []) = sup_run evs (s', n)" using st by simp
  also have "\<dots> = (fst (sup_run evs (s', [])), n @ snd (sup_run evs (s', [])))"
    by (rule Cons.IH)
  finally have r: "sup_run (e # evs) (s, []) =
      (fst (sup_run evs (s', [])), n @ snd (sup_run evs (s', [])))" .
  from l r show ?case by simp
qed

lemma job_run_append:
  "job_run (xs @ ys) ap = job_run ys (job_run xs ap)"
  by (induction xs arbitrary: ap) (auto split: prod.splits)

lemma job_run_while_pending:
  "settled (fst (sup_run evs (s, []))) = None \<Longrightarrow>
   job_run (map SupEvent evs) (acts, Supervise s k) =
     (acts @ snd (sup_run evs (s, [])), Supervise (fst (sup_run evs (s, []))) k)"
proof (induction evs arbitrary: s acts)
  case Nil
  then show ?case by simp
next
  case (Cons e evs)
  obtain s' n where st: "sup_step e s = (s', n)" by (cases "sup_step e s")
  have run: "sup_run (e # evs) (s, []) = (fst (sup_run evs (s', [])), n @ snd (sup_run evs (s', [])))"
    using st sup_run_acts [of evs s' n] by simp
  with Cons.prems have pend: "settled (fst (sup_run evs (s', []))) = None" by simp
  have "settled s' = None"
  proof (rule ccontr)
    assume "settled s' \<noteq> None"
    then obtain r where "settled (fst (s', [] :: action list)) = Some r" by auto
    then have "settled (fst (sup_run evs (s', []))) = Some r" by (rule settled_run)
    with pend show False by simp
  qed
  with st have "job_step (SupEvent e) (Supervise s k) = (n, Supervise s' k)" by simp
  then have "job_run (map SupEvent (e # evs)) (acts, Supervise s k) =
      job_run (map SupEvent evs) (acts @ n, Supervise s' k)" by simp
  also have "\<dots> = ((acts @ n) @ snd (sup_run evs (s', [])), Supervise (fst (sup_run evs (s', []))) k)"
    by (rule Cons.IH [OF pend])
  finally show ?case using run by simp
qed

lemma sync_reaches_supervisor:
  assumes "ok resp"
  shows "\<exists>k. job_run
     [Reply (Inr (VResponse resp)), Reply (Inr (VBuffer docx)), Reply (Inr (VClock n1 st1)),
      Reply (Inr VUnit), Reply (Inr (VClock n2 st2))]
     (flush (sync_callback tmp url)) =
       ([Fetch url, ResponseBuffer, Clock, FsMkdir (join tmp (''output_sync_'' @ st1)), Clock,
         FsWriteFile (join tmp (''input_'' @ st2 @ ''.docx'')) docx],
        Supervise (fst (convertDocxToPdf tmp n2 st2 docx (join tmp (''output_sync_'' @ st1)) 60000)) k)
     \<and> (\<forall>e. flush (k (Inl e)) = ([ConsoleError ''Error in synchronous conversion''], Throw e))"
  using assms
  by (simp add: sync_callback_def fetch_def response_buffer_def clock_def await_unit_def
        convert_def convertDocxToPdf_def Let_def)

text \<open>
  The synchronous callback passes an error of the conversion on: it logs and throws it
  again, so the queue rejects the entry with it. The promise chain of the asynchronous
  endpoint removes the output directory and posts the error to the callback address.
\<close>

lemma sync_job_throws_rejection:
  assumes "ok resp"
    and "settled (fst (sup_run evs
           (fst (convertDocxToPdf tmp n2 st2 docx (join tmp (''output_sync_'' @ st1)) 60000), []))) = None"
    and "settled (fst (sup_step ev (fst (sup_run evs
           (fst (convertDocxToPdf tmp n2 st2 docx (join tmp (''output_sync_'' @ st1)) 60000), []))))) =
         Some (Inl e)"
  shows "snd (job_run
     ([Reply (Inr (VResponse resp)), Reply (Inr (VBuffer docx)), Reply (Inr (VClock n1 st1)),
       Reply (Inr VUnit), Reply (Inr (VClock n2 st2))] @ map SupEvent evs @ [SupEvent ev])
     (flush (sync_callback tmp url))) = Throw e"
proof -
  let ?init = "fst (convertDocxToPdf tmp n2 st2 docx (join tmp (''output_sync_'' @ st1)) 60000)"
  let ?cur = "fst (sup_run evs (?init, []))"
  from sync_reaches_supervisor [OF assms(1), of docx n1 st1 n2 st2 tmp url]
  obtain k acts where pre: "job_run
     [Reply (Inr (VResponse resp)), Reply (Inr (VBuffer docx)), Reply (Inr (VClock n1 st1)),
      Reply (Inr VUnit), Reply (Inr (VClock n2 st2))]
     (flush (sync_callback tmp url)) = (acts, Supervise ?init k)"
    and k: "\<forall>e. flush (k (Inl e)) = ([ConsoleError ''Error in synchronous conversion''], Throw e)"
    by blast
  have mid: "job_run (map SupEvent evs) (acts, Supervise ?init k) =
      (acts @ snd (sup_run evs (?init, [])), Supervise ?cur k)"
    by (rule job_run_while_pending [OF assms(2)])
  obtain s' a where st: "sup_step ev ?cur = (s', a)" by (cases "sup_step ev ?cur")
  with assms(3) have "settled s' = Some (Inl e)" by simp
  with st k have last: "job_step (SupEvent ev) (Supervise ?cur k) =
      (a @ [ConsoleError ''Error in synchronous conversion''], Throw e)"
    by (simp add: job_step_settles)
  show ?thesis
    unfolding job_run_append pre mid using last by simp
qed

lemma sup_run_snoc:
  "sup_run (evs @ [ev]) sa =
     (case sup_step ev (fst (sup_run evs sa)) of (s', n) \<Rightarrow> (s', snd (sup_run evs sa) @ n))"
  by (cases "sup_run evs sa") (simp add: sup_run_append)

lemma async_reaches_supervisor:
  assumes "\<not> unusable_url url" and "ok resp"
  shows "\<exists>k. job_run
     [Reply (Inr (VClock n1 st1)), Reply (Inr (VResponse resp)), Reply (Inr (VBuffer docx)),
      Reply (Inr VUnit), Reply (Inr (VClock n2 st2))]
     (flush (convert_job tmp url oid cb jid)) =
       ([Clock, Fetch url, ResponseBuffer, FsMkdir (join tmp (''output_'' @ oid @ ''_'' @ st1)), Clock,
         FsWriteFile (join tmp (''input_'' @ st2 @ ''.docx'')) docx],
        Supervise (fst (convertDocxToPdf tmp n2 st2 docx
                          (join tmp (''output_'' @ oid @ ''_'' @ st1)) 60000)) k)
     \<and> (\<forall>e r. job_run [Reply r] (flush (k (Inl e))) =
            ([FsRm (join tmp (''output_'' @ oid @ ''_'' @ st1)), ConsoleError ''Conversion failed'',
              PostWebhook cb (FailedPayload oid jid e)],
             snd (flush (notify_failed cb oid jid e))))"
  using assms
  by (simp add: convert_job_def convertDocxToPdfFromUrl_def fetch_def response_buffer_def
        clock_def await_unit_def await_quiet_def convert_def convertDocxToPdf_def Let_def
        notify_failed_def post_webhook_def)

lemma async_job_posts_rejection:
  assumes "\<not> unusable_url url" and "ok resp"
    and "settled (fst (sup_run evs
           (fst (convertDocxToPdf tmp n2 st2 docx (join tmp (''output_'' @ oid @ ''_'' @ st1)) 60000), []))) = None"
    and "settled (fst (sup_step ev (fst (sup_run evs
           (fst (convertDocxToPdf tmp n2 st2 docx (join tmp (''output_'' @ oid @ ''_'' @ st1)) 60000), []))))) =
         Some (Inl e)"
  shows "fst (job_run
     ([Reply (Inr (VClock n1 st1)), Reply (Inr (VResponse resp)), Reply (Inr (VBuffer docx)),
       Reply (Inr VUnit), Reply (Inr (VClock n2 st2))] @ map SupEvent evs @ [SupEvent ev] @ [Reply r])
     (flush (convert_job tmp url oid cb jid))) =
     [Clock, Fetch url, ResponseBuffer, FsMkdir (join tmp (''output_'' @ oid @ ''_'' @ st1)), Clock,
      FsWriteFile (join tmp (''input_'' @ st2 @ ''.docx'')) docx] @
     snd (sup_run (evs @ [ev])
        (fst (convertDocxToPdf tmp n2 st2 docx (join tmp (''output_'' @ oid @ ''_'' @ st1)) 60000), [])) @
     [FsRm (join tmp (''output_'' @ oid @ ''_'' @ st1)), ConsoleError ''Conversion failed'',
      PostWebhook cb (FailedPayload oid jid e)]"
proof -
  let ?init = "fst (convertDocxToPdf tmp n2 st2 docx (join tmp (''output_'' @ oid @ ''_'' @ st1)) 60000)"
  let ?cur = "fst (sup_run evs (?init, []))"
  from async_reaches_supervisor [OF assms(1,2), of n1 st1 docx n2 st2 tmp oid cb jid]
  obtain k acts where pre: "job_run
     [Reply (Inr (VClock n1 st1)), Reply (Inr (VResponse resp)), Reply (Inr (VBuffer docx)),
      Reply (Inr VUnit), Reply (Inr (VClock n2 st2))]
     (flush (convert_job tmp url oid cb jid)) = (acts, Supervise ?init k)"
    and acts: "acts = [Clock, Fetch url, ResponseBuffer,
         FsMkdir (join tmp (''output_'' @ oid @ ''_'' @ st1)), Clock,
         FsWriteFile (join tmp (''input_'' @ st2 @ ''.docx'')) docx]"
    and k: "\<forall>e r. job_run [Reply r] (flush (k (Inl e))) =
            ([FsRm (join tmp (''output_'' @ oid @ ''_'' @ st1)), ConsoleError ''Conversion failed'',
              PostWebhook cb (FailedPayload oid jid e)],
             snd (flush (notify_failed cb oid jid e)))"
    by blast
  have mid: "job_run (map SupEvent evs) (acts, Supervise ?init k) =
      (acts @ snd (sup_run evs (?init, [])), Supervise ?cur k)"
    by (rule job_run_while_pending [OF assms(3)])
  obtain s' a where st: "sup_step ev ?cur = (s', a)" by (cases "sup_step ev ?cur")
  with assms(4) have "settled s' = Some (Inl e)" by simp
  with st have last: "job_step (SupEvent ev) (Supervise ?cur k) =
      (a @ fst (flush (k (Inl e))), snd (flush (k (Inl e))))"
    by (simp add: job_step_settles)
  from st have sr: "snd (sup_run (evs @ [ev]) (?init, [])) = snd (sup_run evs (?init, [])) @ a"
    by (simp add: sup_run_snoc)
  have acc: "job_run es (c @ d, p) = (c @ fst (job_run es (d, p)), snd (job_run es (d, p)))"
    for es c d and p :: "unit prog"
    by (induction es arbitrary: d p) (auto split: prod.splits)
  have fin: "job_run [Reply r] ((acts @ snd (sup_run evs (?init, [])) @ a) @ fst (flush (k (Inl e))),
        snd (flush (k (Inl e)))) =
      ((acts @ snd (sup_run evs (?init, [])) @ a) @ fst (job_run [Reply r] (flush (k (Inl e)))),
       snd (job_run [Reply r] (flush (k (Inl e)))))"
    using acc [of "[Reply r]" "acts @ snd (sup_run evs (?init, [])) @ a" "fst (flush (k (Inl e)))"
                  "snd (flush (k (Inl e)))"]
    by (simp add: acc [of "[Reply r]" "fst (flush (k (Inl e)))" "[]", simplified])
  show ?thesis
    unfolding job_run_append pre mid
    using last fin k sr acts by simp
qed

section \<open>The converter's output: which PDF is returned\<close>

text \<open>
  The paths of a job: for a plain name \<^verbatim>\<open>path.join\<close> appends it to the directory; a name
  with slashes or \<^verbatim>\<open>..\<close> segments (an order id of the request may have them) is
  normalized.
\<close>

lemma join_examples:
  "join ''/tmp'' ''output_A_7'' = ''/tmp/output_A_7''
   \<and> join ''/tmp/output_A_7'' ''a.pdf'' = ''/tmp/output_A_7/a.pdf''
   \<and> join ''/tmp'' ''output_a/b_7'' = ''/tmp/output_a/b_7''
   \<and> join ''/tmp'' ''output_a//b/./c_7'' = ''/tmp/output_a/b/c_7''
   \<and> join ''/tmp'' ''output_a/../b_7'' = ''/tmp/b_7''
   \<and> join ''/tmp'' ''output_/../../etc/x_7'' = ''/etc/x_7''
   \<and> join ''/tmp'' ''output_../x_7'' = ''/tmp/output_../x_7''"
  by (simp add: join_def normalize_path_def Let_def)









lemma some_pdf_is_first:
  assumes "pdf_names files \<noteq> []"
  shows "\<exists>f. lexicographically_first f (pdf_names files)"
proof -
  let ?m = "Min (set (pdf_names files))"
  from assms have "?m \<in> set (pdf_names files)" by (intro Min_in) simp_all
  moreover have "\<forall>g \<in> set (pdf_names files). ?m \<le> g" by simp
  ultimately show ?thesis unfolding lexicographically_first_def by blast
qed



section \<open>The webhook: one delivery attempt\<close>

text \<open>
  Whatever the replies and the events, the promise chain of \<^verbatim>\<open>POST /api/convert\<close>
  makes at most one request to the callback address, exactly one once it has ended, and
  it never ends with an error thrown.
\<close>

lemma quiet_done_try: "quiet_done p \<Longrightarrow> quiet_done (try_catch p h)"
  by (induction p) auto

lemma posts_once_try: "posts_once p \<Longrightarrow> posts_once (try_catch p h)"
  by (induction p) (auto simp: quiet_done_try)

lemma posts_once_chain:
  "silent p \<Longrightarrow> (\<And>v. posts_once (f v)) \<Longrightarrow> (\<And>e. posts_once (h e)) \<Longrightarrow>
   posts_once (try_catch (bind_prog p f) h)"
  by (induction p) (auto simp: posts_once_try)

lemma silent_bind: "silent p \<Longrightarrow> (\<And>v. silent (f v)) \<Longrightarrow> silent (bind_prog p f)"
  by (induction p) auto

lemma silent_try: "silent p \<Longrightarrow> (\<And>e. silent (h e)) \<Longrightarrow> silent (try_catch p h)"
  by (induction p) auto

lemma silent_emit_all: "\<forall>a\<in>set acts. \<not> is_post a \<Longrightarrow> silent p \<Longrightarrow> silent (emit_all acts p)"
  by (induction acts) auto

lemma silent_ops [simp]:
  "silent clock" "silent (fetch url)" "silent response_buffer" "silent (readFile p)"
  "\<not> is_post a \<Longrightarrow> silent (await_unit a)" "\<not> is_post a \<Longrightarrow> silent (await_quiet a)"
  by (auto simp: clock_def fetch_def response_buffer_def readFile_def await_unit_def await_quiet_def
        type_error_def split: sum.splits val.splits)

lemma silent_convert: "silent (convert tmp buf out tmo)"
  by (auto simp: convert_def convertDocxToPdf_def Let_def intro!: silent_bind split: sum.splits)

lemma silent_from_url: "silent (convertDocxToPdfFromUrl tmp url oid)"
  by (auto simp: convertDocxToPdfFromUrl_def Let_def silent_convert
        intro!: silent_bind silent_try split: prod.splits)

lemma posts_once_completed: "posts_once (notify_completed cb oid jid pdf)"
  by (auto simp: notify_completed_def post_webhook_def response_text_def type_error_def
        split: sum.splits val.splits)

lemma posts_once_failed: "posts_once (notify_failed cb oid jid e)"
  by (auto simp: notify_failed_def post_webhook_def type_error_def split: sum.splits val.splits)

lemma posts_once_job: "posts_once (convert_job tmp url oid cb jid)"
  unfolding convert_job_def
  by (rule posts_once_chain) (simp_all add: silent_from_url posts_once_completed posts_once_failed)

lemma count_posts_append [simp]: "count_posts (xs @ ys) = count_posts xs + count_posts ys"
  by (simp add: count_posts_def)

lemma count_posts_simps [simp]:
  "count_posts [] = 0" "count_posts (a # as) = (if is_post a then 1 else 0) + count_posts as"
  by (simp_all add: count_posts_def)

lemma flush_quiet: "quiet_done p \<Longrightarrow> count_posts (fst (flush p)) = 0 \<and> rest_quiet (snd (flush p))"
  by (induction p) auto

lemma flush_once: "posts_once p \<Longrightarrow> job_inv (flush p)"
  by (induction p) (auto simp: job_inv_def flush_quiet)

lemma sup_step_no_post: "count_posts (snd (sup_step e s)) = 0"
  by (cases e)
     (auto simp: on_deadline_def on_grace_def on_close_def on_readdir_def on_stat_def on_error_def
        Let_def split: option.splits sum.splits list.splits sup_phase.splits)

lemma job_step_quiet:
  assumes "rest_quiet p"
  shows "count_posts (fst (job_step ev p)) = 0 \<and> rest_quiet (snd (job_step ev p))"
proof (cases p)
  case (Await a k)
  with assms show ?thesis by (cases ev) (auto simp: flush_quiet)
next
  case (Supervise s k)
  with assms show ?thesis
  proof (cases ev)
    case (SupEvent e)
    obtain s' n where st: "sup_step e s = (s', n)" by (cases "sup_step e s")
    with sup_step_no_post [of e s] have n: "count_posts n = 0" by simp
    from Supervise SupEvent st n assms show ?thesis
      by (auto simp: flush_quiet split: option.splits)
  qed simp
qed (use assms in auto)

lemma job_step_inv:
  assumes "job_inv (acts, p)"
  shows "job_inv (acts @ fst (job_step ev p), snd (job_step ev p))"
proof -
  from assms consider "count_posts acts = 0" "rest_once p" | "count_posts acts = 1" "rest_quiet p"
    by (auto simp: job_inv_def)
  then show ?thesis
  proof cases
    case 1
    show ?thesis
    proof (cases p)
      case (Await a k)
      with 1 show ?thesis
        using flush_once [of "k r" for r] by (cases ev) (auto simp: job_inv_def)
    next
      case (Supervise s k)
      show ?thesis
      proof (cases ev)
        case (SupEvent e)
        obtain s' n where st: "sup_step e s = (s', n)" by (cases "sup_step e s")
        with sup_step_no_post [of e s] have n: "count_posts n = 0" by simp
        from Supervise SupEvent st n 1 show ?thesis
          using flush_once [of "k r" for r] by (auto simp: job_inv_def split: option.splits)
      next
        case (Reply r)
        with Supervise 1 show ?thesis by (simp add: job_inv_def)
      qed
    qed (use 1 in auto)
  next
    case 2
    with job_step_quiet [OF 2(2), of ev] show ?thesis by (simp add: job_inv_def)
  qed
qed

lemma job_run_inv: "job_inv ap \<Longrightarrow> job_inv (job_run evs ap)"
proof (induction evs arbitrary: ap)
  case Nil
  then show ?case by simp
next
  case (Cons ev evs)
  obtain acts p where ap: "ap = (acts, p)" by (cases ap)
  with Cons.prems have "job_inv (acts @ fst (job_step ev p), snd (job_step ev p))"
    by (simp add: job_step_inv)
  then have "job_inv (job_run evs (acts @ fst (job_step ev p), snd (job_step ev p)))"
    by (rule Cons.IH)
  with ap show ?case by (cases "job_step ev p") simp
qed

lemma one_delivery_attempt:
  assumes "job_run evs (flush (convert_job tmp url oid cb jid)) = (acts, p)"
  shows "count_posts acts \<le> 1 \<and> (\<forall>e. p \<noteq> Throw e) \<and> (p = Done () \<longrightarrow> count_posts acts = 1)"
proof -
  have "job_inv (job_run evs (flush (convert_job tmp url oid cb jid)))"
    by (rule job_run_inv) (rule flush_once, rule posts_once_job)
  with assms have "job_inv (acts, p)" by simp
  then show ?thesis by (cases p) (auto simp: job_inv_def)
qed

section \<open>The queue: one at a time, in order, each entry settled\<close>

lemma cq_run_append:
  "cq_run (xs @ ys) qa = cq_run ys (cq_run xs qa)"
  by (induction xs arbitrary: qa) (auto split: prod.splits)

lemma slot_run_snoc:
  "slot_run s (xs @ [a]) = (case slot_run s xs of None \<Rightarrow> None | Some s' \<Rightarrow> slot_step s' a)"
  by (induction xs arbitrary: s) (auto split: option.splits)

lemma called_append: "called (xs @ ys) = called xs @ called ys"
  by (induction xs) (auto split: cq_action.splits)

lemma cq_inv_new: "cq_inv t new_queue []"
  by (simp add: cq_inv_def new_queue_def)

lemma cooled_mono: "cooled prev t \<Longrightarrow> t \<le> t' \<Longrightarrow> cooled prev t'"
  by (cases prev) auto

lemma cq_step_inv:
  assumes "cq_inv t q log" and "t \<le> event_time ev" and "cq_step ev q = (q', new)"
  shows "cq_inv (event_time ev) q' (log @ new) \<and>
         called (log @ new) @ queue q' = called log @ queue q @ enqueued [ev]"
proof (cases ev)
  case (Enqueue e now)
  with assms show ?thesis
    by (cases "queue q")
       (auto simp: cq_inv_def processQueue_def slot_run_snoc called_append Let_def
          split: option.splits cq_wait.splits slot.splits if_splits dest: cooled_mono)
next
  case (CallbackSettled r now)
  with assms show ?thesis
    by (auto simp: cq_inv_def slot_run_snoc called_append
          split: option.splits cq_wait.splits slot.splits if_splits sum.splits dest: cooled_mono)
next
  case (CooldownTimer now)
  with assms show ?thesis
    by (cases "queue q")
       (auto simp: cq_inv_def processQueue_def slot_run_snoc called_append Let_def
          split: option.splits cq_wait.splits slot.splits if_splits dest: cooled_mono)
qed

lemma cq_run_inv:
  assumes "cq_inv t q log" and "sorted (t # map event_time evs)"
    and "cq_run evs (q, log) = (q', log')"
  shows "(\<exists>t'. cq_inv t' q' log') \<and> called log' @ queue q' = called log @ queue q @ enqueued evs"
  using assms
proof (induction evs arbitrary: t q log)
  case Nil
  then show ?case by auto
next
  case (Cons ev evs)
  obtain q1 new where st: "cq_step ev q = (q1, new)" by (cases "cq_step ev q")
  from Cons.prems(2) have le: "t \<le> event_time ev" by simp
  from cq_step_inv [OF Cons.prems(1) le st]
  have inv1: "cq_inv (event_time ev) q1 (log @ new)"
    and fifo1: "called (log @ new) @ queue q1 = called log @ queue q @ enqueued [ev]"
    by simp_all
  from Cons.prems(2) have srt: "sorted (event_time ev # map event_time evs)" by simp
  from Cons.prems(3) st have run: "cq_run evs (q1, log @ new) = (q', log')" by simp
  from Cons.IH [OF inv1 srt run]
  have "(\<exists>t'. cq_inv t' q' log')"
    and "called log' @ queue q' = called (log @ new) @ queue q1 @ enqueued evs"
    by simp_all
  with fifo1 show ?case by (auto split: cq_event.splits)
qed

lemma settlements_append: "settlements (xs @ ys) = settlements xs @ settlements ys"
  by (induction xs) (auto split: cq_action.splits)

lemma slot_run_entries:
  "slot_run s log = Some s' \<Longrightarrow>
   in_slot s @ called log = map fst (settlements log) @ in_slot s'"
proof (induction log arbitrary: s)
  case Nil
  then show ?case by simp
next
  case (Cons a log)
  from Cons.prems obtain s1 where st: "slot_step s a = Some s1" and run: "slot_run s1 log = Some s'"
    by (auto split: option.splits)
  from Cons.IH [OF run] have ih: "in_slot s1 @ called log = map fst (settlements log) @ in_slot s'" .
  from st show ?case
  proof (cases s)
    case (Free prev)
    with st ih show ?thesis by (cases a) (auto split: if_splits)
  next
    case (Busy e)
    with st ih show ?thesis by (cases a) (auto split: if_splits)
  qed
qed

lemma serial_entries:
  assumes "serial log"
  shows "\<exists>cur. length cur \<le> 1 \<and> called log = map fst (settlements log) @ cur"
proof -
  from assms obtain s' where run: "slot_run (Free None) log = Some s'"
    by (auto simp: serial_def)
  from slot_run_entries [OF run] have "called log = map fst (settlements log) @ in_slot s'"
    by simp
  moreover have "length (in_slot s') \<le> 1" by (cases s') auto
  ultimately show ?thesis by blast
qed

lemma cq_run_serial:
  assumes "sorted (map event_time evs)" and "cq_run evs (new_queue, []) = (q, log)"
  shows "serial log \<and> called log @ queue q = enqueued evs"
proof (cases evs)
  case Nil
  with assms show ?thesis by (auto simp: serial_def new_queue_def)
next
  case (Cons ev rest)
  have inv: "cq_inv (event_time ev) (new_queue :: 'a cq) ([] :: ('a, 'b) cq_action list)"
    by (rule cq_inv_new)
  from assms(1) Cons have srt: "sorted (event_time ev # map event_time evs)" by simp
  from cq_run_inv [OF inv srt assms(2)]
  have "\<exists>t'. cq_inv t' q log" and "called log @ queue q = enqueued evs"
    by (simp_all add: new_queue_def)
  then show ?thesis by (auto simp: serial_def cq_inv_def split: option.splits)
qed

text \<open>
  Claim C2. For every sequence of events whose times do not decrease, the actions of the
  queue obey the one-slot monitor \<open>serial\<close>: a callback is called only while no other is
  in flight, the next action is the settling (resolve or reject) of that entry's promise,
  and the following call comes no earlier than 1000 ms after that settling. The entries
  called, followed by those still in the queue, are the entries enqueued, in their order.
\<close>

theorem queue_serial_fifo:
  assumes "sorted (map event_time evs)" and "cq_run evs (new_queue, []) = (q, log)"
  shows "serial log \<and> called log @ queue q = enqueued evs \<and>
         length (called log) \<le> length (settlements log) + 1"
proof -
  from cq_run_serial [OF assms] have ser: "serial log" and fifo: "called log @ queue q = enqueued evs"
    by simp_all
  from serial_entries [OF ser] obtain cur
    where "length cur \<le> 1" and "called log = map fst (settlements log) @ cur" by blast
  then have "length (called log) \<le> length (settlements log) + 1"
    by (metis add_le_cancel_left length_append length_map)
  with ser fifo show ?thesis by simp
qed

theorem queue_serial_fifo_witness:
  "sorted (map event_time three_jobs) \<and>
   snd (cq_run three_jobs (new_queue, [])) =
     [Call 1 0, Reject 1 (SystemError ''boom'') 7, Call 2 1007, Resolve 2 ''pdf'' 1200, Call 3 2200] \<and>
   serial (snd (cq_run three_jobs (new_queue, []))) \<and>
   called (snd (cq_run three_jobs (new_queue, []))) @ queue (fst (cq_run three_jobs (new_queue, []))) =
     enqueued three_jobs"
proof -
  have h1: "sorted (map event_time three_jobs)"
    by (simp add: three_jobs_def)
  have h2: "cq_run three_jobs (new_queue, []) =
      (fst (cq_run three_jobs (new_queue, [])), snd (cq_run three_jobs (new_queue, [])))"
    by simp
  have log: "snd (cq_run three_jobs (new_queue, [])) =
     [Call 1 0, Reject 1 (SystemError ''boom'') 7, Call 2 1007, Resolve 2 ''pdf'' 1200, Call 3 2200]"
    by (simp add: three_jobs_def new_queue_def processQueue_def)
  from queue_serial_fifo [OF h1 h2] h1 log show ?thesis by simp
qed

lemma enqueue_while_processing:
  "processing q \<Longrightarrow>
   cq_run (enqueue_events xs) (q, acts) = (q\<lparr>queue := queue q @ map fst xs\<rparr>, acts)"
proof (induction xs arbitrary: q)
  case Nil
  then show ?case by (simp add: enqueue_events_def)
next
  case (Cons x xs)
  obtain e t where x: "x = (e, t)" by (cases x)
  let ?q1 = "q\<lparr>queue := queue q @ [e]\<rparr>"
  from Cons.prems have p1: "processing ?q1" by simp
  from Cons.prems
  have "cq_run (enqueue_events (x # xs)) (q, acts) = cq_run (enqueue_events xs) (?q1, acts)"
    by (simp add: enqueue_events_def x processQueue_def)
  also have "\<dots> = (?q1\<lparr>queue := queue ?q1 @ map fst xs\<rparr>, acts)"
    by (rule Cons.IH [OF p1])
  finally show ?case by (simp add: x)
qed

lemma enqueue_all:
  "cq_run (enqueue_events ((e, t) # xs)) (new_queue, []) =
     (\<lparr>queue = map fst xs, processing = True, waiting = WaitCallback e\<rparr>, [Call e t])"
proof -
  let ?q1 = "\<lparr>queue = [], processing = True, waiting = WaitCallback e\<rparr>"
  have "cq_run (enqueue_events ((e, t) # xs)) (new_queue, []) =
      cq_run (enqueue_events xs) (?q1, [Call e t])"
    by (simp add: enqueue_events_def processQueue_def new_queue_def)
  also have "\<dots> = (?q1\<lparr>queue := queue ?q1 @ map fst xs\<rparr>, [Call e t])"
    by (rule enqueue_while_processing) simp
  finally show ?thesis by simp
qed

lemma settle_all:
  "length rs = Suc (length rest) \<Longrightarrow>
   fst (cq_run (settle_events rs)
          (\<lparr>queue = rest, processing = True, waiting = WaitCallback e\<rparr>, acts)) = new_queue \<and>
   settlements (snd (cq_run (settle_events rs)
          (\<lparr>queue = rest, processing = True, waiting = WaitCallback e\<rparr>, acts))) =
     settlements acts @ zip (e # rest) (map fst rs)"
proof (induction rs arbitrary: e rest acts)
  case Nil
  then show ?case by simp
next
  case (Cons x rs)
  obtain r t where x: "x = (r, t)" by (cases x)
  show ?case
  proof (cases rest)
    case Nil
    with Cons.prems have "rs = []" by simp
    with Nil x show ?thesis
      by (cases r) (simp_all add: settle_events_def processQueue_def new_queue_def settlements_append)
  next
    case (Cons e' rest')
    with Cons.prems have len: "length rs = Suc (length rest')" by simp
    let ?a = "case r of Inr result \<Rightarrow> Resolve e result t | Inl err \<Rightarrow> Reject e err t"
    have step: "cq_run (settle_events (x # rs))
        (\<lparr>queue = rest, processing = True, waiting = WaitCallback e\<rparr>, acts) =
      cq_run (settle_events rs)
        (\<lparr>queue = rest', processing = True, waiting = WaitCallback e'\<rparr>,
         (acts @ [?a]) @ [Call e' (t + 1000)])"
      by (simp add: settle_events_def processQueue_def x Cons)
    have sa: "settlements ((acts @ [?a]) @ [Call e' (t + 1000)]) = settlements acts @ [(e, r)]"
      by (cases r) (simp_all add: settlements_append)
    from Cons.IH [OF len, of e' "(acts @ [?a]) @ [Call e' (t + 1000)]"] step sa
    show ?thesis by (simp add: x Cons)
  qed
qed

text \<open>
  Claim C4, as amended. An entry is settled at most once and in the order of arrival: the
  entries settled so far are an initial segment of the entries enqueued. When every callback
  settles and every cooldown timer runs, each of the enqueued entries is settled exactly
  once with the outcome of its own callback, a thrown error being passed on unchanged
  through reject, whatever the outcomes of the entries before it; the queue ends idle.
\<close>

theorem queue_settles_each_entry:
  "(sorted (map event_time evs) \<and> cq_run evs (new_queue, []) = (q, log) \<longrightarrow>
      map fst (settlements log) = take (length (settlements log)) (enqueued evs)) \<and>
   (length rs = length es \<longrightarrow>
      fst (cq_run (enqueue_events es @ settle_events rs) (new_queue, [])) = new_queue \<and>
      settlements (snd (cq_run (enqueue_events es @ settle_events rs) (new_queue, []))) =
        zip (map fst es) (map fst rs))"
proof -
  have general: "map fst (settlements log) = take (length (settlements log)) (enqueued evs)"
    if srt: "sorted (map event_time evs)" and run: "cq_run evs (new_queue, []) = (q, log)"
  proof -
    from cq_run_serial [OF srt run] have ser: "serial log"
      and fifo: "called log @ queue q = enqueued evs" by simp_all
    from serial_entries [OF ser] obtain cur
      where "called log = map fst (settlements log) @ cur" by blast
    with fifo have "enqueued evs = map fst (settlements log) @ (cur @ queue q)" by simp
    then show ?thesis by simp
  qed
  have complete: "fst (cq_run (enqueue_events es @ settle_events rs) (new_queue, [])) = new_queue \<and>
      settlements (snd (cq_run (enqueue_events es @ settle_events rs) (new_queue, []))) =
        zip (map fst es) (map fst rs)"
    if len: "length rs = length es"
  proof (cases es)
    case Nil
    with len show ?thesis by (simp add: enqueue_events_def settle_events_def)
  next
    case (Cons x xs)
    obtain e t where x: "x = (e, t)" by (cases x)
    from len Cons have l: "length rs = Suc (length (map fst xs))" by simp
    have "cq_run (enqueue_events es @ settle_events rs) (new_queue, []) =
        cq_run (settle_events rs)
          (\<lparr>queue = map fst xs, processing = True, waiting = WaitCallback e\<rparr>, [Call e t])"
      by (simp add: cq_run_append Cons x enqueue_all)
    with settle_all [OF l, of e "[Call e t]"] show ?thesis
      by (simp add: Cons x)
  qed
  from general complete show ?thesis by blast
qed

theorem queue_settles_each_entry_witness:
  "sorted (map event_time three_jobs) \<and>
   map fst (settlements (snd (cq_run three_jobs (new_queue, [])))) = [1, 2] \<and>
   length [(Inl (SystemError ''boom''), 7), (Inr ''pdf'', 1200::int)] = length [(1::nat, 0::int), (2, 1)] \<and>
   settlements (snd (cq_run
      (enqueue_events [(1::nat, 0), (2, 1)] @
       settle_events [(Inl (SystemError ''boom''), 7), (Inr ''pdf'', 1200)]) (new_queue, []))) =
     [(1, Inl (SystemError ''boom'')), (2, Inr ''pdf'')]"
proof -
  have h1: "sorted (map event_time three_jobs)"
    by (simp add: three_jobs_def)
  have h2: "cq_run three_jobs (new_queue, []) =
      (fst (cq_run three_jobs (new_queue, [])), snd (cq_run three_jobs (new_queue, [])))"
    by simp
  have h3: "length [(Inl (SystemError ''boom''), 7), (Inr ''pdf'', 1200::int)] =
      length [(1::nat, 0::int), (2, 1)]"
    by simp
  have log: "snd (cq_run three_jobs (new_queue, [])) =
     [Call 1 0, Reject 1 (SystemError ''boom'') 7, Call 2 1007, Resolve 2 ''pdf'' 1200, Call 3 2200]"
    by (simp add: three_jobs_def new_queue_def processQueue_def)
  note th = queue_settles_each_entry
    [of three_jobs "fst (cq_run three_jobs (new_queue, []))" "snd (cq_run three_jobs (new_queue, []))"
        "[(Inl (SystemError ''boom''), 7), (Inr ''pdf'', 1200)]" "[(1::nat, 0), (2, 1)]"]
  from th h1 h2 h3 log show ?thesis
    by simp
qed

text \<open>
  The claim as stated fails: when the callback throws, the entry's promise is rejected with
  the thrown error itself; nothing is resolved and no other outcome is synthesized.
\<close>

theorem queue_rejects_with_thrown_error:
  "snd (cq_run [Enqueue (1::nat) 0, CallbackSettled (Inl (SystemError ''spawn ENOENT'')) 7]
         (new_queue, [])) =
     [Call 1 0, Reject 1 (SystemError ''spawn ENOENT'') 7 :: (nat, sync_result) cq_action]"
  by (simp add: new_queue_def processQueue_def)

section \<open>The server: the synchronous endpoint is serialized\<close>

text \<open>
  In every run of the server at most one callback of \<^verbatim>\<open>POST /api/convert-sync\<close> has
  been started and has not ended, so the conversions of that endpoint never overlap.
\<close>

lemma sync_serial_new: "sync_serial new_server"
  by (simp add: sync_serial_def new_server_def new_queue_def)

lemma sync_serial_step:
  assumes "sync_serial srv"
  shows "sync_serial (fst (server_step tmp ev srv))"
proof (cases ev)
  case (PostConvert rid docxUrl orderId callbackUrl stamp)
  with assms show ?thesis
    by (auto simp: sync_serial_def Let_def split: prod.splits cq_wait.splits)
next
  case (PostConvertSync rid docxUrl now)
  with assms show ?thesis
    by (auto simp: sync_serial_def processQueue_def Let_def split: prod.splits cq_wait.splits if_splits)
next
  case (JobEvent rid jev now)
  with assms show ?thesis
    by (auto simp: sync_serial_def current_callback_def set_job_def drop_job_def
          split: prod.splits cq_wait.splits if_splits option.splits sum.splits)
next
  case (QueueTimer now)
  with assms show ?thesis
    by (auto simp: sync_serial_def processQueue_def Let_def split: prod.splits cq_wait.splits if_splits)
qed

lemma sync_serial_run:
  "sync_serial (fst sa) \<Longrightarrow> sync_serial (fst (server_run tmp evs sa))"
proof (induction evs arbitrary: sa)
  case Nil
  then show ?case by simp
next
  case (Cons ev evs)
  obtain srv acts where sa: "sa = (srv, acts)" by (cases sa)
  obtain srv' new where st: "server_step tmp ev srv = (srv', new)" by (cases "server_step tmp ev srv")
  from Cons.prems sa have "sync_serial (fst (server_step tmp ev srv))"
    by (simp add: sync_serial_step)
  with st have "sync_serial (fst (srv', acts @ new))" by simp
  then have "sync_serial (fst (server_run tmp evs (srv', acts @ new)))" by (rule Cons.IH)
  with sa st show ?case by simp
qed

lemma sync_conversions_one_at_a_time:
  "length (sync_jobs (fst (server_run tmp evs (new_server, [])))) \<le> 1"
proof -
  have "sync_serial (fst (server_run tmp evs (new_server, [])))"
    by (rule sync_serial_run) (simp add: sync_serial_new)
  then show ?thesis
    by (auto simp: sync_serial_def split: cq_wait.splits)
qed

section \<open>The code at the inputs where it departs from the specification\<close>

text \<open>
  Claim C3 at two asynchronous requests: \<^verbatim>\<open>POST /api/convert\<close> starts its conversion
  at once and never touches the queue, so both converter processes are spawned and
  running at the same time.
\<close>

theorem async_conversions_overlap:
  "conversions_running (fst (server_run ''/tmp'' two_async (new_server, []))) = [1, 2]
   \<and> conversionQueue (fst (server_run ''/tmp'' two_async (new_server, []))) = new_queue
   \<and> filter (\<lambda>a. case a of Did i (Spawn f args) \<Rightarrow> True | _ \<Rightarrow> False)
        (snd (server_run ''/tmp'' two_async (new_server, []))) =
      [Did 1 (Spawn ''libreoffice''
          [''--headless'', ''--convert-to'', ''pdf'', ''--outdir'', ''/tmp/output_A_100'',
           ''/tmp/input_161_x1.docx'']),
       Did 2 (Spawn ''libreoffice''
          [''--headless'', ''--convert-to'', ''pdf'', ''--outdir'', ''/tmp/output_B_101'',
           ''/tmp/input_181_x2.docx''])]"
  by (simp add: two_async_def ok200_def new_server_def new_queue_def conversions_running_def
        set_job_def drop_job_def
        convert_job_def notify_failed_def notify_completed_def post_webhook_def
        convertDocxToPdfFromUrl_def unusable_url_def startsWith_def
        fetch_def response_buffer_def clock_def await_unit_def await_quiet_def
        convert_def convertDocxToPdf_def readFile_def Let_def new_child_def
        join_def normalize_path_def timer_delay_def libreoffice_args_def)

text \<open>
  Claim C6 at a synchronous job whose converter exits with code 1: the callback logs the
  error and throws it again without removing the output directory it created, which
  stays on disk. The asynchronous path removes its directory in the same situation.
\<close>

theorem sync_failure_keeps_output_dir:
  "job_run sync_failure (flush (sync_callback ''/tmp'' ''http://files/a.docx'')) =
     ([Fetch ''http://files/a.docx'', ResponseBuffer, Clock, FsMkdir ''/tmp/output_sync_7_ab'', Clock,
       FsWriteFile ''/tmp/input_8_cd.docx'' ''PK'',
       Spawn ''libreoffice''
         [''--headless'', ''--convert-to'', ''pdf'', ''--outdir'', ''/tmp/output_sync_7_ab'',
          ''/tmp/input_8_cd.docx''],
       FsUnlink ''/tmp/input_8_cd.docx'', ConsoleError ''LibreOffice failed'',
       ConsoleError ''Error in synchronous conversion''],
      Throw (ConversionFailed (Some 1) 92 ''Error: source file could not be loaded'' ''none''))
   \<and> left_on_disk (fst (job_run sync_failure (flush (sync_callback ''/tmp'' ''http://files/a.docx''))))
       = [''/tmp/output_sync_7_ab'']
   \<and> left_on_disk (fst (job_run async_failure
         (flush (convertDocxToPdfFromUrl ''/tmp'' ''http://files/a.docx'' ''A'')))) = []"
  by (simp add: sync_failure_def async_failure_def failing_conversion_def ok200_def
        sync_callback_def convertDocxToPdfFromUrl_def unusable_url_def startsWith_def
        fetch_def response_buffer_def clock_def await_unit_def await_quiet_def
        convert_def convertDocxToPdf_def readFile_def Let_def new_child_def has_exited_def
        on_exit_def on_close_def reject_def or_none_def join_def normalize_path_def timer_delay_def libreoffice_args_def
        left_on_disk_def)

text \<open>
  Claim C7 at an asynchronous job that failed and whose callback address answers 500:
  the one delivery attempt is made and not repeated, but the response is not inspected
  and the success line is logged.
\<close>

theorem failure_webhook_non2xx_logged_as_sent:
  "job_run (async_failure @ [Reply (Inr (VResponse \<lparr>ok = False, status = 500\<rparr>))])
     (flush (convert_job ''/tmp'' ''http://files/a.docx'' ''A'' ''http://app/hook'' ''job_A_7'')) =
     ([Clock, Fetch ''http://files/a.docx'', ResponseBuffer, FsMkdir ''/tmp/output_A_7'', Clock,
       FsWriteFile ''/tmp/input_8_cd.docx'' ''PK'',
       Spawn ''libreoffice''
         [''--headless'', ''--convert-to'', ''pdf'', ''--outdir'', ''/tmp/output_A_7'',
          ''/tmp/input_8_cd.docx''],
       FsUnlink ''/tmp/input_8_cd.docx'', ConsoleError ''LibreOffice failed'',
       FsRm ''/tmp/output_A_7'', ConsoleError ''Conversion failed'',
       PostWebhook ''http://app/hook''
         (FailedPayload ''A'' ''job_A_7''
            (ConversionFailed (Some 1) 92 ''Error: source file could not be loaded'' ''none'')),
       ConsoleLog ''Failure webhook sent''],
      Done ())"
  by (simp add: async_failure_def failing_conversion_def ok200_def
        convert_job_def notify_failed_def notify_completed_def post_webhook_def
        convertDocxToPdfFromUrl_def unusable_url_def startsWith_def
        fetch_def response_buffer_def clock_def await_unit_def await_quiet_def
        convert_def convertDocxToPdf_def readFile_def Let_def new_child_def has_exited_def
        on_exit_def on_close_def reject_def or_none_def join_def normalize_path_def timer_delay_def libreoffice_args_def)

text \<open>
  Claim C8 at the earlier server file with the order id \<^verbatim>\<open>$(id)\<close>: the converter
  is started through a shell command line into which the paths, and with them the order
  id of the request, are pasted between double quotes.
\<close>

theorem legacy_command_goes_through_shell:
  "fst (job_run
     [Reply (Inr (VClock 7 ''7'')), Reply (Inr (VResponse ok200)), Reply (Inr (VBuffer ''PK'')),
      Reply (Inr VUnit), Reply (Inr VUnit)]
     (flush (convertDocxToPdf_legacy ''/tmp'' ''http://files/a.docx'' ''$(id)''))) =
     [Clock, Fetch ''http://files/a.docx'', ResponseBuffer,
      FsWriteFile ''/tmp/input_$(id)_7.docx'' ''PK'', FsMkdir ''/tmp/output_$(id)_7'',
      ExecShell (''libreoffice --headless --convert-to pdf --outdir '' @
         quoted ''/tmp/output_$(id)_7'' @ '' '' @ quoted ''/tmp/input_$(id)_7.docx'')]"
  by (simp add: ok200_def convertDocxToPdf_legacy_def legacy_command_def unusable_url_def startsWith_def
        fetch_def response_buffer_def clock_def await_unit_def execAsync_def Let_def join_def normalize_path_def timer_delay_def)

text \<open>
  Claim C9 on the synchronous path: the callback has no check of the reference, so the
  sentinel \<^verbatim>\<open>test\<close> reaches \<^verbatim>\<open>fetch\<close>, and a reference that does not start with
  \<^verbatim>\<open>http\<close> but that \<^verbatim>\<open>fetch\<close> accepts is downloaded and converted. The
  asynchronous path rejects both before any call.
\<close>

theorem sync_path_fetches_unusable_url:
  "unusable_url ''test''
   \<and> convertDocxToPdfFromUrl ''/tmp'' ''test'' ''A'' = Throw InvalidDocxUrl
   \<and> snd (server_run ''/tmp'' [PostConvertSync 1 ''test'' 0] (new_server, [])) = [Did 1 (Fetch ''test'')]
   \<and> unusable_url ''HTTP://files/a.docx''
   \<and> snd (server_run ''/tmp''
        [PostConvertSync 1 ''HTTP://files/a.docx'' 0,
         JobEvent 1 (Reply (Inr (VResponse ok200))) 50,
         JobEvent 1 (Reply (Inr (VBuffer ''PK''))) 60,
         JobEvent 1 (Reply (Inr (VClock 60 ''60_ab''))) 60,
         JobEvent 1 (Reply (Inr VUnit)) 61,
         JobEvent 1 (Reply (Inr (VClock 61 ''61_cd''))) 61,
         JobEvent 1 (SupEvent (WriteFileDone None 62)) 62] (new_server, [])) =
       [Did 1 (Fetch ''HTTP://files/a.docx''), Did 1 ResponseBuffer, Did 1 Clock,
        Did 1 (FsMkdir ''/tmp/output_sync_60_ab''), Did 1 Clock,
        Did 1 (FsWriteFile ''/tmp/input_61_cd.docx'' ''PK''),
        Did 1 (Spawn ''libreoffice''
          [''--headless'', ''--convert-to'', ''pdf'', ''--outdir'', ''/tmp/output_sync_60_ab'',
           ''/tmp/input_61_cd.docx''])]"
  by (simp add: ok200_def new_server_def new_queue_def processQueue_def current_callback_def
        set_job_def drop_job_def
        sync_callback_def convertDocxToPdfFromUrl_def unusable_url_def startsWith_def
        fetch_def response_buffer_def clock_def await_unit_def
        convert_def convertDocxToPdf_def Let_def new_child_def join_def normalize_path_def timer_delay_def libreoffice_args_def)

lemma async_path_rejects_unusable_url:
  "unusable_url docxUrl \<Longrightarrow> convertDocxToPdfFromUrl tmpdir docxUrl orderId = Throw InvalidDocxUrl"
  by (simp add: convertDocxToPdfFromUrl_def)

lemma async_job_reports_unusable_url:
  "unusable_url docxUrl \<Longrightarrow>
   fst (flush (convert_job tmpdir docxUrl orderId callbackUrl jobId)) =
     [ConsoleError ''Conversion failed'',
      PostWebhook callbackUrl (FailedPayload orderId jobId InvalidDocxUrl)]"
  by (simp add: convert_job_def convertDocxToPdfFromUrl_def notify_failed_def post_webhook_def)

text \<open>In server.js the converter is only ever started by \<^verbatim>\<open>spawn\<close> with its argument vector.\<close>

lemma supervisor_spawns_with_vector:
  assumes "a \<in> set (snd (sup_step e s))"
  shows "(\<forall>c. a \<noteq> ExecShell c) \<and>
         (\<forall>f args. a = Spawn f args \<longrightarrow>
            f = ''libreoffice'' \<and> args = libreoffice_args (outputDir s) (inputFile s))"
  using assms
  by (cases e)
     (auto simp: on_deadline_def on_grace_def on_close_def on_readdir_def on_stat_def on_error_def
        Let_def split: option.splits sum.splits list.splits sup_phase.splits if_splits)

end
